theory Spec2Isabelle
  imports Complex_Main "HOL-Library.Sublist" "HOL-Library.Log_Nat"
begin

section \<open>NSPA contract extraction and risk scoring (nspa_pdf_processor.py)\<close>

text \<open>
  A shallow embedding of the row parser, the category classifier, the value estimator
  and the risk scorer of class \<open>NSPAPDFProcessor\<close>. Python values are modelled as follows.
  \<^item> \<open>str\<close> is \<open>string\<close>, a text of 8-bit characters (the code points below 256).
    \<open>str.strip\<close> removes the white space of \<open>str.isspace\<close> among them: the ASCII white
    space, U+0085 and U+00A0. \<open>str.upper\<close> maps \<open>a..z\<close> to \<open>A..Z\<close> and leaves every other
    character alone: titles with letters beyond ASCII are outside the model.
  \<^item> \<open>float\<close> is \<open>real\<close>: a double is the number it denotes. In
    \<open>estimate_contract_value\<close>, whose result is the integer part of a product of doubles,
    every literal and every operation is rounded to the nearest double (\<open>round_double\<close>).
    In \<open>assess_contract_risk\<close>, whose floats are only compared with thresholds, the
    arithmetic is exact.
  \<^item> \<open>int\<close> is \<open>int\<close>.
  \<^item> A table cell, as pdfplumber delivers it, is a \<open>str\<close> or \<open>None\<close>: \<open>string option\<close>.
  \<^item> An exception is a value of type \<open>exn\<close> in the left summand of a result.
  \<^item> The state of numpy's global random generator is an explicit value that every
    sampling function takes and returns.
\<close>

subsection \<open>Strings\<close>

definition upper_char :: "char \<Rightarrow> char" where
  "upper_char c =
     (let n = (of_char c :: nat) in if 97 \<le> n \<and> n \<le> 122 then char_of (n - 32) else c)"

text \<open>\<open>s.upper()\<close>\<close>

definition upper :: "string \<Rightarrow> string" where
  "upper s = map upper_char s"

text \<open>\<open>kw in s\<close> on strings: \<open>kw\<close> occurs in \<open>s\<close> as a contiguous substring.\<close>

definition str_in :: "string \<Rightarrow> string \<Rightarrow> bool" where
  "str_in kw s = sublist kw s"

text \<open>\<open>any(kw in s for kw in kws)\<close>\<close>

definition any_in :: "string list \<Rightarrow> string \<Rightarrow> bool" where
  "any_in kws s = list_ex (\<lambda>kw. str_in kw s) kws"

text \<open>The characters for which \<open>str.isspace\<close> holds: tab to carriage return, the four
  separators U+001C to U+001F, the blank, U+0085 (next line) and U+00A0 (no-break space).\<close>

definition is_space :: "char \<Rightarrow> bool" where
  "is_space c = ((of_char c :: nat) \<in> {9, 10, 11, 12, 13, 28, 29, 30, 31, 32, 133, 160})"

text \<open>\<open>s.strip()\<close>\<close>

definition strip :: "string \<Rightarrow> string" where
  "strip s = rev (dropWhile is_space (rev (dropWhile is_space s)))"

subsection \<open>Exceptions\<close>

datatype exn = IndexError | KeyError

text \<open>\<open>xs[i]\<close> for a non-negative index.\<close>

definition py_index :: "'a list \<Rightarrow> nat \<Rightarrow> exn + 'a" where
  "py_index xs i = (if i < length xs then Inr (xs ! i) else Inl IndexError)"

text \<open>\<open>d[k]\<close> for a dict given as the list of its items.\<close>

definition py_getitem :: "('k \<times> 'v) list \<Rightarrow> 'k \<Rightarrow> exn + 'v" where
  "py_getitem d k = (case map_of d k of None \<Rightarrow> Inl KeyError | Some v \<Rightarrow> Inr v)"

text \<open>\<open>d.get(k, default)\<close>\<close>

definition py_get :: "('k \<times> 'v) list \<Rightarrow> 'k \<Rightarrow> 'v \<Rightarrow> 'v" where
  "py_get d k dflt = (case map_of d k of None \<Rightarrow> dflt | Some v \<Rightarrow> v)"

subsection \<open>categorize_contract_type\<close>

text \<open>The dict \<open>categories\<close>, in insertion order (the order \<open>items()\<close> iterates in).\<close>

definition categories :: "(string \<times> string list) list" where
  "categories =
    [(''Ammunition'', [''CARTRIDGE'', ''PROJECTILE'', ''MORTAR'', ''BOMBS'', ''MUNITION'']),
     (''Logistics_Support'', [''LOGISTIC'', ''SUPPORT'', ''MAINTENANCE'', ''SUPPLY'']),
     (''IT_Infrastructure'', [''MICROSOFT'', ''INFRASTRUCTURE'', ''SOFTWARE'', ''SYSTEM'']),
     (''Medical_Equipment'', [''MEDICAL'', ''SURGICAL'', ''HEATER'', ''INFUSION'']),
     (''Communications'', [''COMMUNICATION'', ''SATELLITE'', ''CIS'', ''SHELTER'']),
     (''Vehicles_Transport'', [''VEHICLE'', ''TRUCK'', ''TRAILER'', ''CARGO'']),
     (''Construction'', [''CONSTRUCTION'', ''BUILDING'', ''WAREHOUSE'']),
     (''Training'', [''TRAINING'', ''SIMULATOR'', ''SERVICES'']),
     (''Fuel_Energy'', [''FUEL'', ''GENERATOR'', ''POWER'', ''UPS'']),
     (''Defense_Systems'', [''DEFENSE'', ''SECURITY'', ''GBAD'', ''RADAR''])]"

text \<open>The loop \<open>for category, keywords in categories.items()\<close> with its early return,
  and the \<open>return 'Other'\<close> after it.\<close>

fun categorize_loop :: "(string \<times> string list) list \<Rightarrow> string \<Rightarrow> string" where
  "categorize_loop [] title_upper = ''Other''"
| "categorize_loop ((category, keywords) # rest) title_upper =
     (if any_in keywords title_upper then category else categorize_loop rest title_upper)"

definition categorize_contract_type :: "string \<Rightarrow> string" where
  "categorize_contract_type title =
     (let title_upper = upper title in categorize_loop categories title_upper)"

subsection \<open>Doubles\<close>

text \<open>
  The result of an operation on doubles is the exact result rounded to the nearest
  number with 53 significant bits, a tie going to the even significand. The range of the
  exponent is not bounded: overflow and subnormal numbers, which no value of
  \<open>estimate_contract_value\<close> comes near, are not modelled.
\<close>

text \<open>The exponent of the leading bit of a positive number, the \<open>e\<close> with
  \<open>2 ^ e \<le> x < 2 ^ (e + 1)\<close>: it is read off the number of bits of the integer part of
  \<open>x\<close>, and for \<open>x < 1\<close> off that of \<open>1 / x\<close>.\<close>

definition binade :: "real \<Rightarrow> int" where
  "binade x =
     (if x \<le> 0 then 0
      else if 1 \<le> x then bitlen \<lfloor>x\<rfloor> - 1
      else - bitlen (\<lceil>1 / x\<rceil> - 1))"

text \<open>The unit in the last place of the doubles with exponent \<open>e\<close>.\<close>

definition ulp :: "int \<Rightarrow> real" where
  "ulp e = 2 powi (e - 52)"

text \<open>The integer nearest to \<open>q\<close>, the even one of the two when \<open>q\<close> is half way.\<close>

definition round_half_even :: "real \<Rightarrow> int" where
  "round_half_even q =
     (let f = \<lfloor>q\<rfloor>; r = q - of_int f in
      if r < 1 / 2 then f else if 1 / 2 < r then f + 1 else if even f then f else f + 1)"

text \<open>The double nearest to \<open>x\<close>.\<close>

definition round_double :: "real \<Rightarrow> real" where
  "round_double x =
     (if x = 0 then 0
      else let e = binade \<bar>x\<bar>; u = ulp e
           in sgn x * (of_int (round_half_even (\<bar>x\<bar> / u)) * u))"

subsection \<open>The random generator\<close>

text \<open>
  numpy's generator is not part of the repository. Its state is modelled by the outcomes
  it is going to deliver: \<open>uniform_draws\<close> are the raw samples of the half-open unit
  interval behind the successive calls of \<open>np.random.uniform\<close>, \<open>choice_draws\<close> select
  the element returned by the successive calls of \<open>np.random.choice\<close>. Each is an
  infinite sequence, outcome \<open>0\<close> being the next one; every call consumes one outcome.
  Quantifying over all states covers every outcome of the sampling; the probabilities \<open>p\<close>
  of a choice (all positive in this program, so that every element can be returned) play
  no part in which outcomes are possible.
\<close>

record rng =
  uniform_draws :: "nat \<Rightarrow> real"
  choice_draws :: "nat \<Rightarrow> nat"

text \<open>\<open>np.random.uniform(low, high)\<close>: \<open>low + (high - low) * u\<close> for the next raw sample \<open>u\<close>,
  computed in doubles: the difference, the product and the sum are rounded one after the
  other.\<close>

definition np_random_uniform :: "real \<Rightarrow> real \<Rightarrow> rng \<Rightarrow> real \<times> rng" where
  "np_random_uniform low high g =
     (round_double (low + round_double (round_double (high - low) * uniform_draws g 0)),
      g\<lparr>uniform_draws := (\<lambda>n. uniform_draws g (Suc n))\<rparr>)"

text \<open>\<open>np.random.choice(a, p=p)\<close> for a non-empty list \<open>a\<close>.\<close>

definition np_random_choice :: "'a list \<Rightarrow> real list \<Rightarrow> rng \<Rightarrow> 'a \<times> rng" where
  "np_random_choice a p g =
     (a ! (choice_draws g 0 mod length a),
      g\<lparr>choice_draws := (\<lambda>n. choice_draws g (Suc n))\<rparr>)"

subsection \<open>estimate_contract_value\<close>

definition multipliers :: "(string \<times> int) list" where
  "multipliers =
    [(''SATELLITE'', 50), (''SIMULATOR'', 20), (''CONSTRUCTION'', 15),
     (''AIRCRAFT'', 30), (''AMMUNITION'', 5), (''MEDICAL'', 3),
     (''VEHICLE'', 8), (''FUEL'', 10), (''TRAINING'', 4)]"

text \<open>The loop \<open>for keyword, mult in multipliers.items()\<close>; the third argument is the
  variable \<open>multiplier\<close>.\<close>

fun multiplier_loop :: "(string \<times> int) list \<Rightarrow> string \<Rightarrow> int \<Rightarrow> int" where
  "multiplier_loop [] title_upper multiplier = multiplier"
| "multiplier_loop ((keyword, mult) # rest) title_upper multiplier =
     multiplier_loop rest title_upper
       (if str_in keyword title_upper then max multiplier mult else multiplier)"

text \<open>\<open>int(x)\<close> of a float: truncation towards zero.\<close>

definition py_int :: "real \<Rightarrow> int" where
  "py_int x = (if 0 \<le> x then \<lfloor>x\<rfloor> else \<lceil>x\<rceil>)"

text \<open>The literals \<open>0.7\<close> and \<open>1.5\<close> are the doubles nearest to them. In
  \<open>base_value * multiplier * variation\<close> the product of the two integers is exact, and its
  product with the double is rounded.\<close>

definition estimate_contract_value :: "string \<Rightarrow> string \<Rightarrow> rng \<Rightarrow> int \<times> rng" where
  "estimate_contract_value title contract_type g =
     (let title_upper = upper title;
          base_value = 1000000;
          multiplier = multiplier_loop multipliers title_upper 1;
          (variation, g') = np_random_uniform (round_double 0.7) (round_double 1.5) g
      in (py_int (round_double (real_of_int (base_value * multiplier) * variation)), g'))"

subsection \<open>count_bidders\<close>

definition count_bidders :: "string \<Rightarrow> int" where
  "count_bidders companies_text =
     (if companies_text = [] then 0
      else max 1 (min (int (count_list companies_text (CHR 0x0A)) + 1) 10))"

subsection \<open>assess_contract_risk\<close>

record risk_assessment =
  likelihood :: string
  impact :: string
  score :: int
  complexity :: string

text \<open>The local variables of \<open>assess_contract_risk\<close>, one definition for each.\<close>

definition value_risk :: "real \<Rightarrow> real" where
  "value_risk val = min 4 (val / 10000000)"

definition competition_risk :: "int \<Rightarrow> int" where
  "competition_risk bidder_count = (if bidder_count \<le> 1 then 4 else max 1 (5 - bidder_count))"

definition type_risk_table :: "(string \<times> real) list" where
  "type_risk_table =
    [(''Communications'', 1.5), (''IT_Infrastructure'', 1.4), (''Defense_Systems'', 1.6),
     (''Construction'', 1.2), (''Ammunition'', 1.1), (''Medical_Equipment'', 1.0),
     (''Logistics_Support'', 0.9)]"

definition type_risk :: "string \<Rightarrow> real" where
  "type_risk contract_type = py_get type_risk_table contract_type 1.0"

definition complexity_keywords :: "string list" where
  "complexity_keywords = [''SATELLITE'', ''SIMULATOR'', ''CYBER'', ''AI'', ''ADVANCED'']"

definition complexity_factor :: "string \<Rightarrow> real" where
  "complexity_factor title = (if any_in complexity_keywords (upper title) then 1.3 else 1.0)"

definition base_risk :: "string \<Rightarrow> string \<Rightarrow> real \<Rightarrow> int \<Rightarrow> real" where
  "base_risk title contract_type val bidder_count =
     (value_risk val + real_of_int (competition_risk bidder_count))
       * type_risk contract_type * complexity_factor title"

definition risk_mapping :: "(string \<times> int) list" where
  "risk_mapping = [(''Low'', 1), (''Medium'', 2), (''High'', 3), (''Very High'', 4)]"

text \<open>The \<open>if\<close>/\<open>elif\<close> chain that assigns \<open>likelihood, impact\<close>.\<close>

definition likelihood_impact :: "real \<Rightarrow> rng \<Rightarrow> string \<times> string \<times> rng" where
  "likelihood_impact b g =
     (if b \<le> 3 then (''Low'', np_random_choice [''Low'', ''Medium''] [0.7, 0.3] g)
      else if b \<le> 6 then (''Medium'', np_random_choice [''Medium'', ''High''] [0.6, 0.4] g)
      else if b \<le> 9 then (''High'', np_random_choice [''High'', ''Very High''] [0.7, 0.3] g)
      else (''Very High'', np_random_choice [''High'', ''Very High''] [0.3, 0.7] g))"

definition assess_contract_risk ::
  "string \<Rightarrow> string \<Rightarrow> real \<Rightarrow> int \<Rightarrow> rng \<Rightarrow> (exn + risk_assessment) \<times> rng" where
  "assess_contract_risk title contract_type val bidder_count g =
     (case likelihood_impact (base_risk title contract_type val bidder_count) g of
        (lik, imp, g') \<Rightarrow>
          (case py_getitem risk_mapping lik of
             Inl e \<Rightarrow> (Inl e, g')
           | Inr rank_l \<Rightarrow>
               (case py_getitem risk_mapping imp of
                  Inl e \<Rightarrow> (Inl e, g')
                | Inr rank_i \<Rightarrow>
                    (Inr \<lparr>likelihood = lik, impact = imp, score = rank_l * rank_i,
                          complexity =
                            (if complexity_factor title > 1.2 then ''High''
                             else if type_risk contract_type > 1.2 then ''Medium''
                             else ''Low'')\<rparr>, g'))))"

subsection \<open>is_multinational_contract and assess_technology_level\<close>

definition countries :: "string list" where
  "countries = [''Germany'', ''Italy'', ''France'', ''Spain'', ''USA'', ''Canada'', ''Norway'',
     ''Netherlands'', ''Belgium'', ''Turkey'', ''Poland'', ''United Kingdom'']"

definition is_multinational_contract :: "string \<Rightarrow> bool" where
  "is_multinational_contract companies_text =
     (if companies_text = [] then False
      else (let country_count = length (filter (\<lambda>country. str_in country companies_text) countries)
            in country_count > 1))"

definition assess_technology_level :: "string \<Rightarrow> string" where
  "assess_technology_level title =
     (let title_upper = upper title;
          high_tech = [''SATELLITE'', ''AI'', ''CYBER'', ''ADVANCED'', ''SIMULATOR'', ''RADAR''];
          medium_tech = [''ELECTRONIC'', ''COMMUNICATION'', ''SOFTWARE'', ''SYSTEM'']
      in if any_in high_tech title_upper then ''High''
         else if any_in medium_tech title_upper then ''Medium''
         else ''Low'')"

subsection \<open>extract_contract_details\<close>

text \<open>The dict that \<open>extract_contract_details\<close> builds, one field for each key.\<close>

record contract =
  contract_id :: string
  rfp_title :: string
  contract_type :: string
  closing_date :: string
  companies :: string
  country :: string
  bidder_count :: int
  estimated_value_eur :: int
  year :: int
  risk_likelihood :: string
  risk_impact :: string
  risk_score :: int
  complexity_category :: string
  is_multi_national :: bool
  technology_level :: string

text \<open>\<open>str(cell).strip() if cell else ""\<close>: \<open>None\<close> and the empty string are falsy.\<close>

definition clean_cell :: "string option \<Rightarrow> string" where
  "clean_cell cell = (case cell of None \<Rightarrow> [] | Some s \<Rightarrow> if s = [] then [] else strip s)"

text \<open>The condition under which a title is skipped as a header or an empty row.\<close>

definition skip_title :: "string \<Rightarrow> bool" where
  "skip_title title =
     (title = [] \<or> upper title \<in> set [''RFP TITLE'', ''TITLE'', []] \<or>
      str_in ''BID OPENING'' (upper title))"

text \<open>The body of the \<open>try\<close> block: \<open>Inl\<close> is an exception raised in it, \<open>Inr None\<close> a
  \<open>return None\<close>, \<open>Inr (Some c)\<close> the return of a contract.\<close>

definition extract_contract_details_try ::
  "string option list \<Rightarrow> int \<Rightarrow> rng \<Rightarrow> (exn + contract option) \<times> rng" where
  "extract_contract_details_try row file_year g =
     (let cleaned_row = map clean_cell row in
      if length cleaned_row < 4 then (Inr None, g)
      else
        (case py_index cleaned_row 0 of Inl e \<Rightarrow> (Inl e, g) | Inr collective_num \<Rightarrow>
        (case py_index cleaned_row 1 of Inl e \<Rightarrow> (Inl e, g) | Inr title \<Rightarrow>
        (case py_index cleaned_row 2 of Inl e \<Rightarrow> (Inl e, g) | Inr closing \<Rightarrow>
        (case py_index cleaned_row 3 of Inl e \<Rightarrow> (Inl e, g) | Inr comps \<Rightarrow>
        (case (if length cleaned_row > 4 then py_index cleaned_row 4 else Inr []) of
           Inl e \<Rightarrow> (Inl e, g)
         | Inr ctry \<Rightarrow>
        if skip_title title then (Inr None, g)
        else
          let ctype = categorize_contract_type title in
          (case estimate_contract_value title ctype g of (estimated_value, g1) \<Rightarrow>
          let bidders = count_bidders comps in
          (case assess_contract_risk title ctype (real_of_int estimated_value) bidders g1 of
             (Inl e, g2) \<Rightarrow> (Inl e, g2)
           | (Inr risk, g2) \<Rightarrow>
              (Inr (Some \<lparr>contract_id = collective_num, rfp_title = title,
                          contract_type = ctype, closing_date = closing,
                          companies = comps, country = ctry, bidder_count = bidders,
                          estimated_value_eur = estimated_value, year = file_year,
                          risk_likelihood = likelihood risk, risk_impact = impact risk,
                          risk_score = score risk, complexity_category = complexity risk,
                          is_multi_national = is_multinational_contract comps,
                          technology_level = assess_technology_level title\<rparr>), g2)))))))))"

text \<open>The handler \<open>except Exception\<close>, applied to the outcome of the block: every
  exception becomes \<open>return None\<close> (after a print); the generator keeps the state it had
  when the exception was raised.\<close>

definition except_exception ::
  "(exn + contract option) \<times> rng \<Rightarrow> contract option \<times> rng" where
  "except_exception outcome =
     (case outcome of (Inl e, g') \<Rightarrow> (None, g') | (Inr r, g') \<Rightarrow> (r, g'))"

definition extract_contract_details ::
  "string option list \<Rightarrow> int \<Rightarrow> rng \<Rightarrow> contract option \<times> rng" where
  "extract_contract_details row file_year g =
     except_exception (extract_contract_details_try row file_year g)"

subsection \<open>parse_nspa_contract_data\<close>

text \<open>
  A table is a list of rows, a row a list of cells. \<open>str(row)\<close>, Python's rendering of a
  list, is a parameter \<open>str_of\<close> of the header search.
\<close>

text \<open>The loop \<open>for i, row in enumerate(table)\<close> with its \<open>break\<close>; the result is
  \<open>header_row\<close>, the third argument the index \<open>i\<close>.\<close>

fun find_header_row ::
  "(string option list \<Rightarrow> string) \<Rightarrow> string option list list \<Rightarrow> nat \<Rightarrow> nat option" where
  "find_header_row str_of [] i = None"
| "find_header_row str_of (row # rest) i =
     (if row \<noteq> [] \<and>
         any_in [''COLLECTIVE'', ''RFP TITLE'', ''CLOSING DATE'', ''COMPANIES''] (upper (str_of row))
      then Some i else find_header_row str_of rest (Suc i))"

text \<open>The loop \<open>for row in table[header_row + 1:]\<close>; \<open>contracts\<close> is the list built so far.\<close>

fun process_data_rows ::
  "string option list list \<Rightarrow> int \<Rightarrow> rng \<Rightarrow> contract list \<Rightarrow> contract list \<times> rng" where
  "process_data_rows [] file_year g contracts = (contracts, g)"
| "process_data_rows (row # rest) file_year g contracts =
     (if row = [] \<or> length row < 4 then process_data_rows rest file_year g contracts
      else
        case extract_contract_details row file_year g of
          (None, g') \<Rightarrow> process_data_rows rest file_year g' contracts
        | (Some contract_info, g') \<Rightarrow>
            process_data_rows rest file_year g' (contracts @ [contract_info]))"

text \<open>The loop \<open>for table in tables_data\<close>.\<close>

fun process_tables ::
  "(string option list \<Rightarrow> string) \<Rightarrow> string option list list list \<Rightarrow> int \<Rightarrow> rng \<Rightarrow>
   contract list \<Rightarrow> contract list \<times> rng" where
  "process_tables str_of [] file_year g contracts = (contracts, g)"
| "process_tables str_of (table # rest) file_year g contracts =
     (if table = [] \<or> length table < 2 then process_tables str_of rest file_year g contracts
      else
        case find_header_row str_of table 0 of
          None \<Rightarrow> process_tables str_of rest file_year g contracts
        | Some header_row \<Rightarrow>
            (case process_data_rows (drop (header_row + 1) table) file_year g contracts of
               (contracts', g') \<Rightarrow> process_tables str_of rest file_year g' contracts'))"

definition parse_nspa_contract_data ::
  "(string option list \<Rightarrow> string) \<Rightarrow> string \<Rightarrow> string option list list list \<Rightarrow> int \<Rightarrow> rng \<Rightarrow>
   contract list \<times> rng" where
  "parse_nspa_contract_data str_of text_content tables_data file_year g =
     process_tables str_of tables_data file_year g []"

subsection \<open>Python's rendering of a row\<close>

text \<open>
  \<open>str(row)\<close> for a row of cells, the function that the parameter \<open>str_of\<close> stands for:
  the \<open>repr\<close> of the cells, separated by a comma and a blank, in square brackets. The
  \<open>repr\<close> of \<open>None\<close> is its name. The \<open>repr\<close> of a string is quoted with the apostrophe
  (U+0027), or with the double quote (U+0022) when the string holds an apostrophe and no
  double quote; the quote in use and the backslash (U+005C) are escaped with a backslash;
  tab, line feed and carriage return are written as a backslash and the letter t, n or r;
  every other character that is not printable is written as a backslash, the letter x
  and the two hexadecimal digits of its code point.
\<close>

definition is_printable :: "char \<Rightarrow> bool" where
  "is_printable c =
     (let n = (of_char c :: nat) in (32 \<le> n \<and> n < 127) \<or> (161 \<le> n \<and> n \<noteq> 173))"

definition hex_digit :: "nat \<Rightarrow> char" where
  "hex_digit n = ''0123456789abcdef'' ! n"

definition repr_char :: "char \<Rightarrow> char \<Rightarrow> string" where
  "repr_char quote c =
     (let n = (of_char c :: nat) in
      if c = quote \<or> c = CHR 0x5C then [CHR 0x5C, c]
      else if n = 9 then [CHR 0x5C, CHR ''t'']
      else if n = 10 then [CHR 0x5C, CHR ''n'']
      else if n = 13 then [CHR 0x5C, CHR ''r'']
      else if is_printable c then [c]
      else [CHR 0x5C, CHR ''x'', hex_digit (n div 16), hex_digit (n mod 16)])"

definition repr_str :: "string \<Rightarrow> string" where
  "repr_str s =
     (let quote = (if CHR 0x27 \<in> set s \<and> CHR 0x22 \<notin> set s then CHR 0x22 else CHR 0x27)
      in [quote] @ concat (map (repr_char quote) s) @ [quote])"

definition repr_cell :: "string option \<Rightarrow> string" where
  "repr_cell cell = (case cell of None \<Rightarrow> ''None'' | Some s \<Rightarrow> repr_str s)"

text \<open>\<open>sep.join(xs)\<close>\<close>

fun join :: "string \<Rightarrow> string list \<Rightarrow> string" where
  "join sep [] = []"
| "join sep [x] = x"
| "join sep (x # y # ys) = x @ sep @ join sep (y # ys)"

definition str_row :: "string option list \<Rightarrow> string" where
  "str_row row = ''['' @ join '', '' (map repr_cell row) @ '']''"

subsection \<open>The batch as the specification describes it\<close>

text \<open>
  The specification's account of a batch: the data rows of a table are the rows after
  its header row, a table of fewer than two rows or without a header row has none; the
  rows are taken one after the other, a row that yields a contract adds it to the
  contracts collected so far, a row that yields \<open>None\<close> adds nothing, and in either case
  the batch goes on with the next row. These two definitions follow the specification, not
  the code; they are what \<open>parse_nspa_contract_data\<close> is compared with.
\<close>

definition spec_data_rows ::
  "(string option list \<Rightarrow> string) \<Rightarrow> string option list list \<Rightarrow> string option list list" where
  "spec_data_rows str_of table =
     (if length table < 2 then []
      else case find_header_row str_of table 0 of
             None \<Rightarrow> []
           | Some header_row \<Rightarrow> drop (header_row + 1) table)"

definition spec_row_step ::
  "int \<Rightarrow> contract list \<times> rng \<Rightarrow> string option list \<Rightarrow> contract list \<times> rng" where
  "spec_row_step file_year collected row =
     (case collected of (contracts, g) \<Rightarrow>
        (case extract_contract_details row file_year g of
           (None, g') \<Rightarrow> (contracts, g')
         | (Some c, g') \<Rightarrow> (contracts @ [c], g')))"

subsection \<open>The multiplier as the specification states it\<close>

text \<open>
  The keyword table in the order the specification lists it, and the multiplier it
  describes: the maximum multiplier among the keywords that occur in the uppercased title,
  and 1 when none occurs. These two definitions follow the specification, not the code;
  they are what \<open>estimate_contract_value\<close> is compared with.
\<close>

definition spec_multiplier_table :: "(string \<times> int) list" where
  "spec_multiplier_table =
    [(''SATELLITE'', 50), (''AIRCRAFT'', 30), (''SIMULATOR'', 20), (''CONSTRUCTION'', 15),
     (''FUEL'', 10), (''VEHICLE'', 8), (''AMMUNITION'', 5), (''TRAINING'', 4),
     (''MEDICAL'', 3)]"

definition spec_max_multiplier :: "string \<Rightarrow> int" where
  "spec_max_multiplier title =
     (let matching = map snd (filter (\<lambda>p. str_in (fst p) (upper title)) spec_multiplier_table)
      in if matching = [] then 1 else Max (set matching))"

subsection \<open>Sample generator states\<close>

text \<open>The generator whose every raw sample is \<open>u\<close> and whose every choice is \<open>k\<close>.\<close>

definition constant_rng :: "real \<Rightarrow> nat \<Rightarrow> rng" where
  "constant_rng u k = \<lparr>uniform_draws = (\<lambda>n. u), choice_draws = (\<lambda>n. k)\<rparr>"

section \<open>Properties\<close>

subsection \<open>The classifier\<close>

lemma sublist_map_iff:
  "sublist ys (map f xs) \<longleftrightarrow> (\<exists>w. sublist w xs \<and> map f w = ys)"
proof
  assume "sublist ys (map f xs)"
  then obtain ps ss where "map f xs = ps @ (ys @ ss)"
    by (auto simp: sublist_def)
  then obtain ps' r where r: "xs = ps' @ r" "ys @ ss = map f r"
    unfolding map_eq_append_conv by blast
  from r(2) obtain w ss' where "r = w @ ss'" "map f w = ys"
    unfolding append_eq_map_conv by blast
  with r show "\<exists>w. sublist w xs \<and> map f w = ys"
    by (auto simp: sublist_def)
next
  assume "\<exists>w. sublist w xs \<and> map f w = ys"
  then show "sublist ys (map f xs)"
    using map_mono_sublist by blast
qed

lemma any_in_upper_iff:
  "any_in kws (upper title) \<longleftrightarrow> (\<exists>kw \<in> set kws. \<exists>w. sublist w title \<and> upper w = kw)"
  unfolding any_in_def str_in_def upper_def list_ex_iff
  by (simp only: sublist_map_iff)

lemma categorize_loop_index:
  "(\<exists>i<length cats. categorize_loop cats t = fst (cats ! i) \<and> any_in (snd (cats ! i)) t
        \<and> (\<forall>j<i. \<not> any_in (snd (cats ! j)) t))
   \<or> (categorize_loop cats t = ''Other'' \<and> (\<forall>j<length cats. \<not> any_in (snd (cats ! j)) t))"
proof (induction cats)
  case Nil
  show ?case by simp
next
  case (Cons p cats)
  obtain c kws where p: "p = (c, kws)" by (cases p)
  show ?case
  proof (cases "any_in kws t")
    case True
    with p have "categorize_loop (p # cats) t = fst ((p # cats) ! 0) \<and> any_in (snd ((p # cats) ! 0)) t
        \<and> (\<forall>j<0. \<not> any_in (snd ((p # cats) ! j)) t)"
      by simp
    then show ?thesis by blast
  next
    case False
    from Cons.IH show ?thesis
    proof
      assume "\<exists>i<length cats. categorize_loop cats t = fst (cats ! i) \<and> any_in (snd (cats ! i)) t
        \<and> (\<forall>j<i. \<not> any_in (snd (cats ! j)) t)"
      then obtain i where i: "i < length cats" "categorize_loop cats t = fst (cats ! i)"
        "any_in (snd (cats ! i)) t" "\<forall>j<i. \<not> any_in (snd (cats ! j)) t"
        by blast
      have "\<forall>j<Suc i. \<not> any_in (snd ((p # cats) ! j)) t"
        using False p i(4) by (auto simp: less_Suc_eq_0_disj)
      with i False p have "Suc i < length (p # cats) \<and> categorize_loop (p # cats) t = fst ((p # cats) ! Suc i)
         \<and> any_in (snd ((p # cats) ! Suc i)) t \<and> (\<forall>j<Suc i. \<not> any_in (snd ((p # cats) ! j)) t)"
        by simp
      then show ?thesis by blast
    next
      assume a: "categorize_loop cats t = ''Other'' \<and> (\<forall>j<length cats. \<not> any_in (snd (cats ! j)) t)"
      have "\<forall>j<length (p # cats). \<not> any_in (snd ((p # cats) ! j)) t"
        using False p a by (auto simp: less_Suc_eq_0_disj)
      with a False p show ?thesis by simp
    qed
  qed
qed

lemma categorize_loop_unique:
  "(c, kws) \<in> set cats \<Longrightarrow> any_in kws t \<Longrightarrow>
   (\<forall>(c', kws') \<in> set cats. c' \<noteq> c \<longrightarrow> \<not> any_in kws' t) \<Longrightarrow> categorize_loop cats t = c"
proof (induction cats)
  case Nil
  then show ?case by simp
next
  case (Cons p cats)
  obtain c' kws' where p: "p = (c', kws')" by (cases p)
  show ?case
  proof (cases "any_in kws' t")
    case True
    with Cons.prems(3) p have "c' = c" by auto
    with True p show ?thesis by simp
  next
    case False
    with Cons.prems p have "(c, kws) \<in> set cats" by auto
    with Cons.IH Cons.prems have "categorize_loop cats t = c" by auto
    with False p show ?thesis by simp
  qed
qed

text \<open>
  C2. \<open>categorize_contract_type\<close> returns the first category, in the declared order, one
  of whose keywords occurs in the uppercased title, and \<open>Other\<close> when no keyword of any
  category occurs. A title that matches the keywords of exactly one category gets that
  category. A keyword occurs in the uppercased title exactly when some substring of the
  title uppercases to it (the match is case-insensitive).
\<close>

theorem categorize_contract_type_first_match:
  "map fst categories =
     [''Ammunition'', ''Logistics_Support'', ''IT_Infrastructure'', ''Medical_Equipment'',
      ''Communications'', ''Vehicles_Transport'', ''Construction'', ''Training'',
      ''Fuel_Energy'', ''Defense_Systems'']
   \<and> ((\<exists>i<length categories.
          categorize_contract_type title = fst (categories ! i)
          \<and> any_in (snd (categories ! i)) (upper title)
          \<and> (\<forall>j<i. \<not> any_in (snd (categories ! j)) (upper title)))
      \<or> (categorize_contract_type title = ''Other''
          \<and> (\<forall>j<length categories. \<not> any_in (snd (categories ! j)) (upper title))))
   \<and> (\<forall>c kws. (c, kws) \<in> set categories \<and> any_in kws (upper title)
          \<and> (\<forall>(c', kws') \<in> set categories. c' \<noteq> c \<longrightarrow> \<not> any_in kws' (upper title))
        \<longrightarrow> categorize_contract_type title = c)
   \<and> (\<forall>kws. any_in kws (upper title)
          \<longleftrightarrow> (\<exists>kw \<in> set kws. \<exists>w. sublist w title \<and> upper w = kw))"
proof (intro conjI allI impI)
  show "map fst categories =
     [''Ammunition'', ''Logistics_Support'', ''IT_Infrastructure'', ''Medical_Equipment'',
      ''Communications'', ''Vehicles_Transport'', ''Construction'', ''Training'',
      ''Fuel_Energy'', ''Defense_Systems'']"
    by (simp add: categories_def)
next
  show "(\<exists>i<length categories.
          categorize_contract_type title = fst (categories ! i)
          \<and> any_in (snd (categories ! i)) (upper title)
          \<and> (\<forall>j<i. \<not> any_in (snd (categories ! j)) (upper title)))
      \<or> (categorize_contract_type title = ''Other''
          \<and> (\<forall>j<length categories. \<not> any_in (snd (categories ! j)) (upper title)))"
    unfolding categorize_contract_type_def Let_def by (rule categorize_loop_index)
next
  fix c kws
  assume "(c, kws) \<in> set categories \<and> any_in kws (upper title)
          \<and> (\<forall>(c', kws') \<in> set categories. c' \<noteq> c \<longrightarrow> \<not> any_in kws' (upper title))"
  then show "categorize_contract_type title = c"
    unfolding categorize_contract_type_def Let_def by (blast intro: categorize_loop_unique)
next
  fix kws
  show "any_in kws (upper title)
          \<longleftrightarrow> (\<exists>kw \<in> set kws. \<exists>w. sublist w title \<and> upper w = kw)"
    by (rule any_in_upper_iff)
qed

theorem categorize_contract_type_first_match_witness:
  "categorize_contract_type ''Repair of radar units'' = ''Defense_Systems''"
proof -
  have "(''Defense_Systems'', [''DEFENSE'', ''SECURITY'', ''GBAD'', ''RADAR'']) \<in> set categories
      \<and> any_in [''DEFENSE'', ''SECURITY'', ''GBAD'', ''RADAR''] (upper ''Repair of radar units'')
      \<and> (\<forall>(c', kws') \<in> set categories. c' \<noteq> ''Defense_Systems''
            \<longrightarrow> \<not> any_in kws' (upper ''Repair of radar units''))"
    by code_simp
  with categorize_contract_type_first_match [of "''Repair of radar units''"]
  show ?thesis by blast
qed

subsection \<open>The risk scorer\<close>

lemma np_random_choice_two:
  "fst (np_random_choice [x, y] p g) = x \<or> fst (np_random_choice [x, y] p g) = y"
proof -
  define k where "k = choice_draws g 0 mod length [x, y]"
  have "k < length [x, y]"
    unfolding k_def by (rule mod_less_divisor) simp
  then have "k = 0 \<or> k = 1"
    by (auto simp: less_Suc_eq)
  moreover have "fst (np_random_choice [x, y] p g) = [x, y] ! k"
    by (simp only: np_random_choice_def k_def fst_conv)
  ultimately show ?thesis
    by auto
qed

lemma rank_lookups:
  "py_getitem risk_mapping ''Low'' = Inr 1"
  "py_getitem risk_mapping ''Medium'' = Inr 2"
  "py_getitem risk_mapping ''High'' = Inr 3"
  "py_getitem risk_mapping ''Very High'' = Inr 4"
  by (simp_all add: py_getitem_def risk_mapping_def)

lemma likelihood_impact_cases:
  "\<exists>i g'. likelihood_impact b g =
       (if b \<le> 3 then ''Low'' else if b \<le> 6 then ''Medium''
        else if b \<le> 9 then ''High'' else ''Very High'', i, g')
     \<and> (if b \<le> 3 then i = ''Low'' \<or> i = ''Medium''
        else if b \<le> 6 then i = ''Medium'' \<or> i = ''High''
        else i = ''High'' \<or> i = ''Very High'')"
proof -
  have a: "\<exists>i g'. np_random_choice [x, y] p g = (i, g') \<and> (i = x \<or> i = y)" for x y :: string and p
    using np_random_choice_two [of x y p g] by (cases "np_random_choice [x, y] p g") auto
  show ?thesis
    unfolding likelihood_impact_def using a by (simp del: One_nat_def)
qed

lemma assess_contract_risk_cases:
  "\<exists>l i rl ri g'.
     assess_contract_risk title ct v bc g =
       (Inr \<lparr>likelihood = l, impact = i, score = rl * ri,
             complexity = (if complexity_factor title > 1.2 then ''High''
                           else if type_risk ct > 1.2 then ''Medium'' else ''Low'')\<rparr>, g')
     \<and> ((base_risk title ct v bc \<le> 3 \<and> l = ''Low'' \<and> rl = 1
            \<and> (i = ''Low'' \<and> ri = 1 \<or> i = ''Medium'' \<and> ri = 2))
        \<or> (3 < base_risk title ct v bc \<and> base_risk title ct v bc \<le> 6 \<and> l = ''Medium'' \<and> rl = 2
            \<and> (i = ''Medium'' \<and> ri = 2 \<or> i = ''High'' \<and> ri = 3))
        \<or> (6 < base_risk title ct v bc \<and> base_risk title ct v bc \<le> 9 \<and> l = ''High'' \<and> rl = 3
            \<and> (i = ''High'' \<and> ri = 3 \<or> i = ''Very High'' \<and> ri = 4))
        \<or> (9 < base_risk title ct v bc \<and> l = ''Very High'' \<and> rl = 4
            \<and> (i = ''High'' \<and> ri = 3 \<or> i = ''Very High'' \<and> ri = 4)))"
proof -
  define b where "b = base_risk title ct v bc"
  obtain i g' where li: "likelihood_impact b g =
       (if b \<le> 3 then ''Low'' else if b \<le> 6 then ''Medium''
        else if b \<le> 9 then ''High'' else ''Very High'', i, g')"
    and i: "if b \<le> 3 then i = ''Low'' \<or> i = ''Medium''
        else if b \<le> 6 then i = ''Medium'' \<or> i = ''High''
        else i = ''High'' \<or> i = ''Very High''"
    using likelihood_impact_cases [of b g] by blast
  consider "b \<le> 3" | "3 < b" "b \<le> 6" | "6 < b" "b \<le> 9" | "9 < b"
    by linarith
  then show ?thesis
  proof cases
    case 1
    with i have "i = ''Low'' \<or> i = ''Medium''" by simp
    then show ?thesis
      unfolding assess_contract_risk_def b_def [symmetric] li using 1
      by (auto simp: rank_lookups)
  next
    case 2
    with i have "i = ''Medium'' \<or> i = ''High''" by simp
    then show ?thesis
      unfolding assess_contract_risk_def b_def [symmetric] li using 2
      by (auto simp: rank_lookups)
  next
    case 3
    with i have "i = ''High'' \<or> i = ''Very High''" by simp
    then show ?thesis
      unfolding assess_contract_risk_def b_def [symmetric] li using 3
      by (auto simp: rank_lookups)
  next
    case 4
    with i have "i = ''High'' \<or> i = ''Very High''" by simp
    then show ?thesis
      unfolding assess_contract_risk_def b_def [symmetric] li using 4
      by (auto simp: rank_lookups)
  qed
qed


lemma assess_contract_risk_fields:
  "\<exists>ra. fst (assess_contract_risk title ct v bc g) = Inr ra
     \<and> complexity ra = (if complexity_factor title > 1.2 then ''High''
                           else if type_risk ct > 1.2 then ''Medium'' else ''Low'')
     \<and> likelihood ra = (if base_risk title ct v bc \<le> 3 then ''Low''
                         else if base_risk title ct v bc \<le> 6 then ''Medium''
                         else if base_risk title ct v bc \<le> 9 then ''High'' else ''Very High'')
     \<and> ((likelihood ra = ''Low'' \<and> (impact ra = ''Low'' \<and> score ra = 1 * 1
                                       \<or> impact ra = ''Medium'' \<and> score ra = 1 * 2))
        \<or> (likelihood ra = ''Medium'' \<and> (impact ra = ''Medium'' \<and> score ra = 2 * 2
                                       \<or> impact ra = ''High'' \<and> score ra = 2 * 3))
        \<or> (likelihood ra = ''High'' \<and> (impact ra = ''High'' \<and> score ra = 3 * 3
                                       \<or> impact ra = ''Very High'' \<and> score ra = 3 * 4))
        \<or> (likelihood ra = ''Very High'' \<and> (impact ra = ''High'' \<and> score ra = 4 * 3
                                       \<or> impact ra = ''Very High'' \<and> score ra = 4 * 4)))"
  using assess_contract_risk_cases [of title ct v bc g]
  apply (elim exE conjE)
  subgoal for l i rl ri g'
    apply (rule exI [of _ "\<lparr>likelihood = l, impact = i, score = rl * ri,
             complexity = (if complexity_factor title > 1.2 then ''High''
                           else if type_risk ct > 1.2 then ''Medium'' else ''Low'')\<rparr>"])
    apply (elim disjE conjE)
    apply simp_all
    done
  done

text \<open>
  C1. For every title, contract type, value, bidder count and generator state,
  \<open>assess_contract_risk\<close> returns an assessment (it raises nothing) whose score is the
  product of the ranks of its likelihood and its impact, the rank of Low, Medium, High,
  Very High being 1, 2, 3, 4; the score lies in \<open>{1, 2, 3, 4, 6, 8, 9, 12, 16}\<close>.
\<close>

theorem assess_contract_risk_score_product:
  "\<exists>ra rl ri.
     fst (assess_contract_risk title ct v bc g) = Inr ra
     \<and> map_of [(''Low'', 1), (''Medium'', 2), (''High'', 3), (''Very High'', 4)] (likelihood ra) = Some rl
     \<and> map_of [(''Low'', 1), (''Medium'', 2), (''High'', 3), (''Very High'', 4)] (impact ra) = Some ri
     \<and> score ra = rl * ri
     \<and> score ra \<in> {1, 2, 3, 4, 6, 8, 9, 12, 16 :: int}"
  using assess_contract_risk_fields [of title ct v bc g]
  by (elim exE conjE disjE) simp_all

theorem assess_contract_risk_score_product_witness:
  "fst (assess_contract_risk ''Satellite ground terminal'' ''Communications'' 55000000 1
          (constant_rng (1/2) 1))
     = Inr \<lparr>likelihood = ''Very High'', impact = ''Very High'', score = 16, complexity = ''High''\<rparr>
   \<and> (\<exists>ra rl ri.
     fst (assess_contract_risk ''Satellite ground terminal'' ''Communications'' 55000000 1
            (constant_rng (1/2) 1)) = Inr ra
     \<and> map_of [(''Low'', 1), (''Medium'', 2), (''High'', 3), (''Very High'', 4)] (likelihood ra) = Some rl
     \<and> map_of [(''Low'', 1), (''Medium'', 2), (''High'', 3), (''Very High'', 4)] (impact ra) = Some ri
     \<and> score ra = rl * ri
     \<and> score ra \<in> {1, 2, 3, 4, 6, 8, 9, 12, 16 :: int})"
proof
  show "fst (assess_contract_risk ''Satellite ground terminal'' ''Communications'' 55000000 1
          (constant_rng (1/2) 1))
     = Inr \<lparr>likelihood = ''Very High'', impact = ''Very High'', score = 16, complexity = ''High''\<rparr>"
    by code_simp
next
  show "\<exists>ra rl ri.
     fst (assess_contract_risk ''Satellite ground terminal'' ''Communications'' 55000000 1
            (constant_rng (1/2) 1)) = Inr ra
     \<and> map_of [(''Low'', 1), (''Medium'', 2), (''High'', 3), (''Very High'', 4)] (likelihood ra) = Some rl
     \<and> map_of [(''Low'', 1), (''Medium'', 2), (''High'', 3), (''Very High'', 4)] (impact ra) = Some ri
     \<and> score ra = rl * ri
     \<and> score ra \<in> {1, 2, 3, 4, 6, 8, 9, 12, 16 :: int}"
    by (rule assess_contract_risk_score_product)
qed

text \<open>
  C10. The impact is confined by the likelihood: Low gives Low or Medium, Medium gives
  Medium or High, High and Very High give High or Very High. So the score lies in
  \<open>{1, 2, 4, 6, 9, 12, 16}\<close>; it is never 3 and never 8.
\<close>

theorem assess_contract_risk_impact_confined:
  "\<exists>ra.
     fst (assess_contract_risk title ct v bc g) = Inr ra
     \<and> ((likelihood ra = ''Low'' \<and> impact ra \<in> {''Low'', ''Medium''})
        \<or> (likelihood ra = ''Medium'' \<and> impact ra \<in> {''Medium'', ''High''})
        \<or> (likelihood ra = ''High'' \<and> impact ra \<in> {''High'', ''Very High''})
        \<or> (likelihood ra = ''Very High'' \<and> impact ra \<in> {''High'', ''Very High''}))
     \<and> score ra \<in> {1, 2, 4, 6, 9, 12, 16 :: int}
     \<and> score ra \<noteq> 3 \<and> score ra \<noteq> 8"
  using assess_contract_risk_fields [of title ct v bc g]
  by (elim exE conjE disjE) simp_all

theorem assess_contract_risk_impact_confined_witness:
  "fst (assess_contract_risk ''Fuel supply'' ''Fuel_Energy'' 11000000 0 (constant_rng (1/2) 1))
     = Inr \<lparr>likelihood = ''Medium'', impact = ''High'', score = 6, complexity = ''Low''\<rparr>
   \<and> (\<exists>ra.
     fst (assess_contract_risk ''Fuel supply'' ''Fuel_Energy'' 11000000 0 (constant_rng (1/2) 1))
       = Inr ra
     \<and> ((likelihood ra = ''Low'' \<and> impact ra \<in> {''Low'', ''Medium''})
        \<or> (likelihood ra = ''Medium'' \<and> impact ra \<in> {''Medium'', ''High''})
        \<or> (likelihood ra = ''High'' \<and> impact ra \<in> {''High'', ''Very High''})
        \<or> (likelihood ra = ''Very High'' \<and> impact ra \<in> {''High'', ''Very High''}))
     \<and> score ra \<in> {1, 2, 4, 6, 9, 12, 16 :: int}
     \<and> score ra \<noteq> 3 \<and> score ra \<noteq> 8)"
proof (rule conjI)
  show "fst (assess_contract_risk ''Fuel supply'' ''Fuel_Energy'' 11000000 0 (constant_rng (1/2) 1))
     = Inr \<lparr>likelihood = ''Medium'', impact = ''High'', score = 6, complexity = ''Low''\<rparr>"
    by code_simp
next
  show "\<exists>ra.
     fst (assess_contract_risk ''Fuel supply'' ''Fuel_Energy'' 11000000 0 (constant_rng (1/2) 1))
       = Inr ra
     \<and> ((likelihood ra = ''Low'' \<and> impact ra \<in> {''Low'', ''Medium''})
        \<or> (likelihood ra = ''Medium'' \<and> impact ra \<in> {''Medium'', ''High''})
        \<or> (likelihood ra = ''High'' \<and> impact ra \<in> {''High'', ''Very High''})
        \<or> (likelihood ra = ''Very High'' \<and> impact ra \<in> {''High'', ''Very High''}))
     \<and> score ra \<in> {1, 2, 4, 6, 9, 12, 16 :: int}
     \<and> score ra \<noteq> 3 \<and> score ra \<noteq> 8"
    by (rule assess_contract_risk_impact_confined)
qed

text \<open>
  C5. The base risk is the sum of the value sub-score and the competition sub-score, times
  the category-risk factor, times the complexity factor. The likelihood is Low exactly
  when the base risk is at most 3, Medium when it is above 3 and at most 6, High when it
  is above 6 and at most 9, and Very High when it is above 9.
\<close>

theorem assess_contract_risk_likelihood_thresholds:
  "\<exists>ra.
     fst (assess_contract_risk title ct v bc g) = Inr ra
     \<and> base_risk title ct v bc =
           (min 4 (v / 10000000) + real_of_int (if bc \<le> 1 then 4 else max 1 (5 - bc)))
             * type_risk ct * complexity_factor title
     \<and> (likelihood ra = ''Low'' \<longleftrightarrow> base_risk title ct v bc \<le> 3)
     \<and> (likelihood ra = ''Medium'' \<longleftrightarrow> 3 < base_risk title ct v bc \<and> base_risk title ct v bc \<le> 6)
     \<and> (likelihood ra = ''High'' \<longleftrightarrow> 6 < base_risk title ct v bc \<and> base_risk title ct v bc \<le> 9)
     \<and> (likelihood ra = ''Very High'' \<longleftrightarrow> 9 < base_risk title ct v bc)"
proof -
  have b: "base_risk title ct v bc =
           (min 4 (v / 10000000) + real_of_int (if bc \<le> 1 then 4 else max 1 (5 - bc)))
             * type_risk ct * complexity_factor title"
    by (simp only: base_risk_def value_risk_def competition_risk_def)
  from assess_contract_risk_fields [of title ct v bc g]
  obtain ra where ra: "fst (assess_contract_risk title ct v bc g) = Inr ra"
    and l: "likelihood ra = (if base_risk title ct v bc \<le> 3 then ''Low''
                         else if base_risk title ct v bc \<le> 6 then ''Medium''
                         else if base_risk title ct v bc \<le> 9 then ''High'' else ''Very High'')"
    by (elim exE conjE)
  show ?thesis
    apply (rule exI [of _ ra])
    apply (intro conjI)
         apply (rule ra)
        apply (rule b)
       apply (simp_all only: l)
       apply (simp_all split: if_splits)
    done
qed

theorem assess_contract_risk_likelihood_thresholds_witness:
  "base_risk ''Radar upgrade'' ''Defense_Systems'' 1100000 0 = 6.576
   \<and> (\<exists>ra.
     fst (assess_contract_risk ''Radar upgrade'' ''Defense_Systems'' 1100000 0
            (constant_rng (1/2) 0)) = Inr ra
     \<and> base_risk ''Radar upgrade'' ''Defense_Systems'' 1100000 0 =
           (min 4 (1100000 / 10000000) + real_of_int (if (0::int) \<le> 1 then 4 else max 1 (5 - 0)))
             * type_risk ''Defense_Systems'' * complexity_factor ''Radar upgrade''
     \<and> (likelihood ra = ''Low''
          \<longleftrightarrow> base_risk ''Radar upgrade'' ''Defense_Systems'' 1100000 0 \<le> 3)
     \<and> (likelihood ra = ''Medium''
          \<longleftrightarrow> 3 < base_risk ''Radar upgrade'' ''Defense_Systems'' 1100000 0
            \<and> base_risk ''Radar upgrade'' ''Defense_Systems'' 1100000 0 \<le> 6)
     \<and> (likelihood ra = ''High''
          \<longleftrightarrow> 6 < base_risk ''Radar upgrade'' ''Defense_Systems'' 1100000 0
            \<and> base_risk ''Radar upgrade'' ''Defense_Systems'' 1100000 0 \<le> 9)
     \<and> (likelihood ra = ''Very High''
          \<longleftrightarrow> 9 < base_risk ''Radar upgrade'' ''Defense_Systems'' 1100000 0))"
proof (rule conjI)
  show "base_risk ''Radar upgrade'' ''Defense_Systems'' 1100000 0 = 6.576"
    by code_simp
next
  show "\<exists>ra.
     fst (assess_contract_risk ''Radar upgrade'' ''Defense_Systems'' 1100000 0
            (constant_rng (1/2) 0)) = Inr ra
     \<and> base_risk ''Radar upgrade'' ''Defense_Systems'' 1100000 0 =
           (min 4 (1100000 / 10000000) + real_of_int (if (0::int) \<le> 1 then 4 else max 1 (5 - 0)))
             * type_risk ''Defense_Systems'' * complexity_factor ''Radar upgrade''
     \<and> (likelihood ra = ''Low''
          \<longleftrightarrow> base_risk ''Radar upgrade'' ''Defense_Systems'' 1100000 0 \<le> 3)
     \<and> (likelihood ra = ''Medium''
          \<longleftrightarrow> 3 < base_risk ''Radar upgrade'' ''Defense_Systems'' 1100000 0
            \<and> base_risk ''Radar upgrade'' ''Defense_Systems'' 1100000 0 \<le> 6)
     \<and> (likelihood ra = ''High''
          \<longleftrightarrow> 6 < base_risk ''Radar upgrade'' ''Defense_Systems'' 1100000 0
            \<and> base_risk ''Radar upgrade'' ''Defense_Systems'' 1100000 0 \<le> 9)
     \<and> (likelihood ra = ''Very High''
          \<longleftrightarrow> 9 < base_risk ''Radar upgrade'' ''Defense_Systems'' 1100000 0)"
    by (rule assess_contract_risk_likelihood_thresholds)
qed

subsection \<open>Rounding to doubles\<close>

lemma ulp_pos: "0 < ulp e"
  by (simp add: ulp_def)

lemma ulp_Suc: "ulp (e + 1) = 2 * ulp e"
proof -
  have "e + 1 - 52 = (e - 52) + 1" by simp
  then have "ulp (e + 1) = 2 powi ((e - 52) + 1)"
    unfolding ulp_def by (rule arg_cong)
  also have "\<dots> = 2 powi (e - 52) * 2"
    by (rule power_int_add_1) simp
  finally show ?thesis
    by (simp add: ulp_def)
qed

lemma ulp_pred: "ulp (e - 1) = ulp e / 2"
  using ulp_Suc [of "e - 1"] by simp

lemma ulp_mono: "a \<le> b \<Longrightarrow> ulp a \<le> ulp b"
proof -
  have "ulp a \<le> ulp (a + int n)" for n
  proof (induction n)
    case 0
    show ?case by simp
  next
    case (Suc n)
    have "a + int (Suc n) = (a + int n) + 1"
      by simp
    then have "ulp (a + int (Suc n)) = 2 * ulp (a + int n)"
      by (simp only: ulp_Suc)
    with Suc ulp_pos [of "a + int n"] show ?case by linarith
  qed
  from this [of "nat (b - a)"] show "a \<le> b \<Longrightarrow> ulp a \<le> ulp b"
    by simp
qed

text \<open>The significand of a positive number, in units in the last place, lies between
  \<open>2 ^ 52\<close> and \<open>2 ^ 53\<close>.\<close>

lemma binade_range:
  assumes "0 < x"
  shows "2 ^ 52 * ulp (binade x) \<le> x \<and> x < 2 ^ 53 * ulp (binade x)"
proof -
  have p: "2 ^ 52 * ulp e = 2 powi e" "2 ^ 53 * ulp e = 2 powi (e + 1)" for e
  proof -
    have "(2::real) powi e = 2 powi (52 + (e - 52))" by simp
    also have "\<dots> = 2 powi 52 * 2 powi (e - 52)"
      by (rule power_int_add) simp
    finally show "2 ^ 52 * ulp e = 2 powi e"
      by (simp add: ulp_def)
    have "e + 1 = 53 + (e - 52)" by simp
    then have "(2::real) powi (e + 1) = 2 powi (53 + (e - 52))" by (rule arg_cong)
    also have "\<dots> = 2 powi 53 * 2 powi (e - 52)"
      by (rule power_int_add) simp
    finally show "2 ^ 53 * ulp e = 2 powi (e + 1)"
      by (simp add: ulp_def)
  qed
  show ?thesis
  proof (cases "1 \<le> x")
    case True
    define n where "n = \<lfloor>x\<rfloor>"
    have n: "0 < n" "of_int n \<le> x" "x < of_int (n + 1)"
      using True by (simp_all add: n_def)
    have e: "binade x = bitlen n - 1"
      using True assms by (simp add: binade_def n_def)
    have b: "0 < bitlen n"
      using n(1) bitlen_bounds [of n] bitlen_nonneg [of n]
      by (smt (verit) bitlen_eq_zero_iff)
    from bitlen_bounds [OF n(1)] have "2 ^ nat (bitlen n - 1) \<le> n" "n + 1 \<le> 2 ^ nat (bitlen n)"
      by simp_all
    then have "(2::real) ^ nat (bitlen n - 1) \<le> of_int n" "of_int (n + 1) \<le> (2::real) ^ nat (bitlen n)"
      by (metis of_int_le_iff of_int_numeral of_int_power)+
    with n have "(2::real) ^ nat (bitlen n - 1) \<le> x" "x < (2::real) ^ nat (bitlen n)"
      by linarith+
    moreover have "(2::real) powi (bitlen n - 1) = 2 ^ nat (bitlen n - 1)"
      "(2::real) powi (bitlen n - 1 + 1) = 2 ^ nat (bitlen n)"
      using b by (simp_all add: power_int_def)
    ultimately show ?thesis
      unfolding p e by simp
  next
    case False
    define n where "n = \<lceil>1 / x\<rceil> - 1"
    have "1 < 1 / x"
      using False assms by simp
    then have n: "0 < n" "of_int n < 1 / x" "1 / x \<le> of_int (n + 1)"
      unfolding n_def by linarith+
    have e: "binade x = - bitlen n"
      using False assms by (simp add: binade_def n_def)
    have b: "0 < bitlen n"
      using n(1) bitlen_bounds [of n] bitlen_nonneg [of n]
      by (smt (verit) bitlen_eq_zero_iff)
    from bitlen_bounds [OF n(1)] have "2 ^ nat (bitlen n - 1) \<le> n" "n + 1 \<le> 2 ^ nat (bitlen n)"
      by simp_all
    then have "(2::real) ^ nat (bitlen n - 1) \<le> of_int n" "of_int (n + 1) \<le> (2::real) ^ nat (bitlen n)"
      by (metis of_int_le_iff of_int_numeral of_int_power)+
    with n have "(2::real) ^ nat (bitlen n - 1) < 1 / x" "1 / x \<le> (2::real) ^ nat (bitlen n)"
      by linarith+
    then have "x < 1 / 2 ^ nat (bitlen n - 1)" "1 / 2 ^ nat (bitlen n) \<le> x"
      using assms by (simp_all add: field_simps)
    moreover have "(2::real) powi (- bitlen n) = 1 / 2 ^ nat (bitlen n)"
      using b by (simp add: power_int_def field_simps)
    moreover have "(2::real) powi (- bitlen n + 1) = 1 / 2 ^ nat (bitlen n - 1)"
    proof (cases "bitlen n = 1")
      case True
      then show ?thesis by simp
    next
      case False
      with b have "- bitlen n + 1 < 0" "nat (- (- bitlen n + 1)) = nat (bitlen n - 1)"
        by simp_all
      then show ?thesis
        by (simp add: power_int_def field_simps)
    qed
    ultimately show ?thesis
      unfolding p e by simp
  qed
qed

lemma binade_mono:
  assumes "0 < x" "x \<le> y"
  shows "binade x \<le> binade y"
proof (rule ccontr)
  assume "\<not> binade x \<le> binade y"
  then have "binade y + 1 \<le> binade x" by simp
  then have "ulp (binade y + 1) \<le> ulp (binade x)" by (rule ulp_mono)
  then have "2 ^ 53 * ulp (binade y) \<le> 2 ^ 52 * ulp (binade x)"
    unfolding ulp_Suc by simp
  moreover have "2 ^ 52 * ulp (binade x) \<le> x"
    using binade_range [OF assms(1)] by simp
  moreover have "y < 2 ^ 53 * ulp (binade y)"
    using binade_range [of y] assms by simp
  ultimately show False using assms by linarith
qed

lemma round_half_even_le: "q \<le> of_int z \<Longrightarrow> round_half_even q \<le> z"
  unfolding round_half_even_def Let_def by (auto; linarith)

lemma round_half_even_ge: "of_int z \<le> q \<Longrightarrow> z \<le> round_half_even q"
  unfolding round_half_even_def Let_def by (auto; linarith)

lemma round_half_even_mono: "p \<le> q \<Longrightarrow> round_half_even p \<le> round_half_even q"
proof -
  assume pq: "p \<le> q"
  then have "\<lfloor>p\<rfloor> \<le> \<lfloor>q\<rfloor>" by (rule floor_mono)
  then consider "\<lfloor>p\<rfloor> < \<lfloor>q\<rfloor>" | "\<lfloor>p\<rfloor> = \<lfloor>q\<rfloor>" by linarith
  then show ?thesis
  proof cases
    case 1
    have "round_half_even p \<le> \<lfloor>p\<rfloor> + 1"
      unfolding round_half_even_def Let_def by auto
    moreover have "\<lfloor>q\<rfloor> \<le> round_half_even q"
      unfolding round_half_even_def Let_def by auto
    ultimately show ?thesis using 1 by linarith
  next
    case 2
    with pq show ?thesis
      unfolding round_half_even_def Let_def by auto
  qed
qed

lemma round_double_nonneg: "0 \<le> x \<Longrightarrow> 0 \<le> round_double x"
proof -
  assume x: "0 \<le> x"
  show ?thesis
  proof (cases "x = 0")
    case True
    then show ?thesis by (simp add: round_double_def)
  next
    case False
    with x have p: "0 < x" by simp
    have "of_int 0 \<le> x / ulp (binade x)"
      using p ulp_pos [of "binade x"] by simp
    then have "0 \<le> round_half_even (x / ulp (binade x))"
      by (rule round_half_even_ge)
    then show ?thesis
      using p ulp_pos [of "binade x"] by (simp add: round_double_def Let_def)
  qed
qed

lemma round_double_pos:
  assumes "0 < x"
  shows "round_double x = of_int (round_half_even (x / ulp (binade x))) * ulp (binade x)"
    and "2 ^ 52 * ulp (binade x) \<le> round_double x"
    and "round_double x \<le> 2 ^ 53 * ulp (binade x)"
proof -
  define u where "u = ulp (binade x)"
  have u: "0 < u" unfolding u_def by (rule ulp_pos)
  show r: "round_double x = of_int (round_half_even (x / ulp (binade x))) * ulp (binade x)"
    using assms by (simp add: round_double_def Let_def)
  from binade_range [OF assms] have "2 ^ 52 * u \<le> x" "x < 2 ^ 53 * u"
    by (simp_all add: u_def)
  with u have "of_int (2 ^ 52) \<le> x / u" "x / u \<le> of_int (2 ^ 53)"
    by (simp_all add: field_simps)
  then have "2 ^ 52 \<le> round_half_even (x / u)" "round_half_even (x / u) \<le> 2 ^ 53"
    by (simp_all only: round_half_even_ge round_half_even_le)
  then have "(2 ^ 52 :: real) \<le> of_int (round_half_even (x / u))"
    "of_int (round_half_even (x / u)) \<le> (2 ^ 53 :: real)"
    by (metis of_int_le_iff of_int_numeral of_int_power)+
  with u have "2 ^ 52 * u \<le> of_int (round_half_even (x / u)) * u"
    "of_int (round_half_even (x / u)) * u \<le> 2 ^ 53 * u"
    by simp_all
  then show "2 ^ 52 * ulp (binade x) \<le> round_double x"
    "round_double x \<le> 2 ^ 53 * ulp (binade x)"
    unfolding r u_def by simp_all
qed

lemma round_double_mono_pos:
  assumes "0 < x" "x \<le> y"
  shows "round_double x \<le> round_double y"
proof -
  from assms have y: "0 < y" by simp
  from binade_mono [OF assms] consider "binade x = binade y" | "binade x + 1 \<le> binade y"
    by linarith
  then show ?thesis
  proof cases
    case 1
    have u: "0 < ulp (binade y)" by (rule ulp_pos)
    then have "x / ulp (binade y) \<le> y / ulp (binade y)"
      using assms(2) by (simp add: divide_right_mono)
    then have "round_half_even (x / ulp (binade y)) \<le> round_half_even (y / ulp (binade y))"
      by (rule round_half_even_mono)
    then have "real_of_int (round_half_even (x / ulp (binade y))) * ulp (binade y)
       \<le> real_of_int (round_half_even (y / ulp (binade y))) * ulp (binade y)"
      using u by simp
    then show ?thesis
      unfolding round_double_pos(1) [OF assms(1)] round_double_pos(1) [OF y] 1 .
  next
    case 2
    then have "ulp (binade x + 1) \<le> ulp (binade y)" by (rule ulp_mono)
    then have "2 ^ 53 * ulp (binade x) \<le> 2 ^ 52 * ulp (binade y)"
      unfolding ulp_Suc by simp
    with round_double_pos(3) [OF assms(1)] round_double_pos(2) [OF y]
    show ?thesis by linarith
  qed
qed

text \<open>Rounding is monotone.\<close>

lemma round_double_mono:
  assumes "0 \<le> x" "x \<le> y"
  shows "round_double x \<le> round_double y"
proof (cases "x = 0")
  case True
  with assms have "0 \<le> round_double y"
    by (simp add: round_double_nonneg)
  with True show ?thesis by (simp add: round_double_def)
next
  case False
  with assms show ?thesis by (simp add: round_double_mono_pos)
qed

subsection \<open>The value estimator\<close>

lemma multiplier_loop_fold:
  "multiplier_loop ms t acc = fold max (map snd (filter (\<lambda>p. str_in (fst p) t) ms)) acc"
  by (induction ms arbitrary: acc) (auto simp: max.commute)

lemma multiplier_loop_Max:
  "multiplier_loop ms t acc = Max (set (acc # map snd (filter (\<lambda>p. str_in (fst p) t) ms)))"
  by (simp only: multiplier_loop_fold Max.set_eq_fold)

lemma set_multipliers: "set multipliers = set spec_multiplier_table"
  by (auto simp: multipliers_def spec_multiplier_table_def)

lemma spec_multipliers_ge_1: "p \<in> set spec_multiplier_table \<Longrightarrow> 1 \<le> snd p"
  by (auto simp: spec_multiplier_table_def)

lemma multiplier_loop_spec:
  "multiplier_loop multipliers (upper title) 1 = spec_max_multiplier title"
proof -
  define P where "P = (\<lambda>p :: string \<times> int. str_in (fst p) (upper title))"
  define S where "S = snd ` {p \<in> set spec_multiplier_table. P p}"
  have fin: "finite S"
    unfolding S_def by simp
  have ge: "1 \<le> x" if "x \<in> S" for x
    using that spec_multipliers_ge_1 unfolding S_def by auto
  have l: "multiplier_loop multipliers (upper title) 1 = Max (insert 1 S)"
    unfolding multiplier_loop_Max S_def P_def set_multipliers [symmetric] by (simp add: image_def) 
  have r: "spec_max_multiplier title = (if S = {} then 1 else Max S)"
    unfolding spec_max_multiplier_def Let_def S_def P_def by (auto simp: filter_empty_conv)
  show ?thesis
  proof (cases "S = {}")
    case True
    with l r show ?thesis by simp
  next
    case False
    with fin ge have "1 \<le> Max S"
      by (meson Max_in)
    with fin False have "Max (insert 1 S) = Max S"
      by (simp add: max_def)
    with l r False show ?thesis by simp
  qed
qed

lemma spec_max_multiplier_ge_1: "1 \<le> spec_max_multiplier title"
proof -
  have "1 \<le> multiplier_loop ms t acc" if "1 \<le> acc" for ms t acc
    using that by (induction ms arbitrary: acc) auto
  then show ?thesis
    unfolding multiplier_loop_spec [symmetric] by simp
qed

lemma spec_max_multiplier_values:
  "spec_max_multiplier title \<in> set [1, 3, 4, 5, 8, 10, 15, 20, 30, 50]"
proof -
  define matching where
    "matching = map snd (filter (\<lambda>p. str_in (fst p) (upper title)) spec_multiplier_table)"
  have sub: "set matching \<subseteq> {50, 30, 20, 15, 10, 8, 5, 4, 3}"
    unfolding matching_def spec_multiplier_table_def by auto
  show ?thesis
  proof (cases "matching = []")
    case True
    then show ?thesis
      by (simp add: spec_max_multiplier_def Let_def matching_def)
  next
    case False
    then have "Max (set matching) \<in> set matching"
      by simp
    with sub have "Max (set matching) \<in> {50, 30, 20, 15, 10, 8, 5, 4, 3}"
      by (rule subsetD)
    moreover have "spec_max_multiplier title = Max (set matching)"
      using False by (simp add: spec_max_multiplier_def Let_def matching_def)
    ultimately show ?thesis
      by auto
  qed
qed

lemma estimate_contract_value_eq:
  "estimate_contract_value title ct g =
     (py_int (round_double (real_of_int (1000000 * spec_max_multiplier title)
                * fst (np_random_uniform (round_double 0.7) (round_double 1.5) g))),
      snd (np_random_uniform (round_double 0.7) (round_double 1.5) g))"
  by (simp add: estimate_contract_value_def Let_def multiplier_loop_spec split: prod.splits)

lemma py_int_bounds:
  assumes "of_int lo \<le> x" "x \<le> of_int hi" "0 \<le> lo"
  shows "lo \<le> py_int x \<and> py_int x \<le> hi"
proof -
  from assms have "0 \<le> x" by linarith
  then have "py_int x = \<lfloor>x\<rfloor>" by (simp add: py_int_def)
  moreover from assms(1) have "lo \<le> \<lfloor>x\<rfloor>" by (simp add: le_floor_iff)
  moreover from assms(2) have "\<lfloor>x\<rfloor> \<le> hi" by (simp add: floor_le_iff)
  ultimately show ?thesis by simp
qed

lemma py_int_mono: "x \<le> y \<Longrightarrow> py_int x \<le> py_int y"
  unfolding py_int_def
  by (auto intro: floor_mono ceiling_mono) (smt (verit) ceiling_le_zero zero_le_floor)

text \<open>The doubles of the literals, and the products at the two ends of the interval: for
  each multiplier of the table the smallest product is rounded to \<open>700000 * m\<close>, the
  largest is \<open>1500000 * m\<close>.\<close>

lemma literal_doubles:
  "round_double 0.7 = 3152519739159347 / 4503599627370496"
  "round_double 1.5 = 3 / 2"
  "round_double (round_double 1.5 - round_double 0.7) = 3602879701896397 / 4503599627370496"
  "round_double (3152519739159347 / 4503599627370496) = 3152519739159347 / 4503599627370496"
  "round_double (3602879701896397 / 4503599627370496) = 3602879701896397 / 4503599627370496"
  "round_double (3152519739159347 / 4503599627370496 + 3602879701896397 / 4503599627370496) = 3 / 2"
  by code_simp+

lemma product_doubles:
  "list_all (\<lambda>m. round_double (real_of_int (1000000 * m) * round_double 0.7) = real_of_int (700000 * m)
                \<and> round_double (real_of_int (1000000 * m) * 1.5) = real_of_int (1500000 * m))
     [1, 3, 4, 5, 8, 10, 15, 20, 30, 50]"
  by code_simp

lemma np_random_uniform_range:
  assumes "0 \<le> uniform_draws g 0" "uniform_draws g 0 \<le> 1"
  shows "round_double 0.7 \<le> fst (np_random_uniform (round_double 0.7) (round_double 1.5) g)"
    and "fst (np_random_uniform (round_double 0.7) (round_double 1.5) g) \<le> 1.5"
proof -
  define lo :: real where "lo = 3152519739159347 / 4503599627370496"
  define s :: real where "s = 3602879701896397 / 4503599627370496"
  define u where "u = uniform_draws g 0"
  have "fst (np_random_uniform (round_double 0.7) (round_double 1.5) g)
      = round_double (round_double 0.7
          + round_double (round_double (round_double 1.5 - round_double 0.7) * u))"
    by (simp only: np_random_uniform_def fst_conv u_def)
  also have "\<dots> = round_double (round_double 0.7 + round_double (s * u))"
    by (simp only: literal_doubles(3) s_def)
  also have "\<dots> = round_double (lo + round_double (s * u))"
    by (simp only: literal_doubles(1) lo_def)
  finally have v: "fst (np_random_uniform (round_double 0.7) (round_double 1.5) g)
      = round_double (lo + round_double (s * u))" .
  have lo0: "0 \<le> lo" and s0: "0 \<le> s"
    by (simp_all add: lo_def s_def)
  have u: "0 \<le> u" "u \<le> 1"
    using assms by (simp_all add: u_def)
  have su: "0 \<le> s * u"
    using s0 u(1) by simp
  then have r0: "0 \<le> round_double (s * u)"
    by (rule round_double_nonneg)
  have "round_double lo \<le> round_double (lo + round_double (s * u))"
    using lo0 r0 by (intro round_double_mono) simp_all
  then have "lo \<le> round_double (lo + round_double (s * u))"
    by (simp only: lo_def literal_doubles(4))
  moreover have "round_double 0.7 = lo"
    by (simp only: literal_doubles(1) lo_def)
  ultimately show "round_double 0.7 \<le> fst (np_random_uniform (round_double 0.7) (round_double 1.5) g)"
    by (subst v) simp
  have "s * u \<le> s"
    using s0 u(2) by (simp add: mult_left_le)
  with su have "round_double (s * u) \<le> round_double s"
    by (rule round_double_mono)
  then have "round_double (s * u) \<le> s"
    by (simp only: s_def literal_doubles(5))
  then have "lo + round_double (s * u) \<le> lo + s"
    by simp
  moreover have "0 \<le> lo + round_double (s * u)"
    using lo0 r0 by simp
  ultimately have "round_double (lo + round_double (s * u)) \<le> round_double (lo + s)"
    by (intro round_double_mono)
  then have "round_double (lo + round_double (s * u)) \<le> 3 / 2"
    by (simp only: lo_def s_def literal_doubles(6))
  then show "fst (np_random_uniform (round_double 0.7) (round_double 1.5) g) \<le> 1.5"
    by (subst v) simp
qed

text \<open>
  C4. \<open>estimate_contract_value\<close> returns \<open>int(1000000 * m * v)\<close>, the integer part of the
  product as Python computes it in doubles, where \<open>m\<close> is the multiplier the specification
  describes and \<open>v\<close> the factor that \<open>np.random.uniform(0.7, 1.5)\<close> delivers. When \<open>v\<close> lies
  between the double \<open>0.7\<close> and \<open>1.5\<close>, the result lies between \<open>700000 * m\<close> and
  \<open>1500000 * m\<close>; and \<open>v\<close> lies there whenever the raw sample is in the unit interval.
\<close>

theorem estimate_contract_value_formula:
  "fst (estimate_contract_value title ct g) =
      py_int (round_double (real_of_int (1000000 * spec_max_multiplier title)
                * fst (np_random_uniform (round_double 0.7) (round_double 1.5) g)))
   \<and> (round_double 0.7 \<le> fst (np_random_uniform (round_double 0.7) (round_double 1.5) g)
        \<and> fst (np_random_uniform (round_double 0.7) (round_double 1.5) g) \<le> 1.5
        \<longrightarrow> 700000 * spec_max_multiplier title \<le> fst (estimate_contract_value title ct g)
            \<and> fst (estimate_contract_value title ct g) \<le> 1500000 * spec_max_multiplier title)
   \<and> (0 \<le> uniform_draws g 0 \<and> uniform_draws g 0 < 1
        \<longrightarrow> round_double 0.7 \<le> fst (np_random_uniform (round_double 0.7) (round_double 1.5) g)
            \<and> fst (np_random_uniform (round_double 0.7) (round_double 1.5) g) \<le> 1.5)"
proof (rule conjI [OF _ conjI [OF impI]])
  show "0 \<le> uniform_draws g 0 \<and> uniform_draws g 0 < 1
        \<longrightarrow> round_double 0.7 \<le> fst (np_random_uniform (round_double 0.7) (round_double 1.5) g)
            \<and> fst (np_random_uniform (round_double 0.7) (round_double 1.5) g) \<le> 1.5"
    using np_random_uniform_range [of g] by simp
next
  show "fst (estimate_contract_value title ct g) =
      py_int (round_double (real_of_int (1000000 * spec_max_multiplier title)
                * fst (np_random_uniform (round_double 0.7) (round_double 1.5) g)))"
    by (simp only: estimate_contract_value_eq fst_conv)
next
  define m where "m = spec_max_multiplier title"
  define v where "v = fst (np_random_uniform (round_double 0.7) (round_double 1.5) g)"
  define M where "M = real_of_int (1000000 * m)"
  assume "round_double 0.7 \<le> fst (np_random_uniform (round_double 0.7) (round_double 1.5) g)
      \<and> fst (np_random_uniform (round_double 0.7) (round_double 1.5) g) \<le> 1.5"
  then have v: "round_double 0.7 \<le> v" "v \<le> 1.5"
    by (simp_all add: v_def)
  have l0: "0 \<le> round_double 0.7"
    by (rule round_double_nonneg) simp
  have m: "1 \<le> m"
    unfolding m_def by (rule spec_max_multiplier_ge_1)
  then have M0: "0 \<le> M"
    by (simp add: M_def)
  have "m \<in> set [1, 3, 4, 5, 8, 10, 15, 20, 30, 50]"
    unfolding m_def by (rule spec_max_multiplier_values)
  with product_doubles
  have ends: "round_double (M * round_double 0.7) = real_of_int (700000 * m)"
    "round_double (M * 1.5) = real_of_int (1500000 * m)"
    unfolding list_all_iff M_def by blast+
  have "M * round_double 0.7 \<le> M * v"
    using v(1) M0 by (rule mult_left_mono)
  moreover have "0 \<le> M * round_double 0.7"
    using M0 l0 by simp
  ultimately have "round_double (M * round_double 0.7) \<le> round_double (M * v)"
    by (intro round_double_mono)
  then have lo: "real_of_int (700000 * m) \<le> round_double (M * v)"
    by (simp only: ends)
  have "M * v \<le> M * 1.5"
    using v(2) M0 by (rule mult_left_mono)
  moreover have "0 \<le> M * v"
    using M0 l0 v(1) by simp
  ultimately have "round_double (M * v) \<le> round_double (M * 1.5)"
    by (intro round_double_mono)
  then have hi: "round_double (M * v) \<le> real_of_int (1500000 * m)"
    by (simp only: ends)
  from m have "0 \<le> 700000 * m"
    by simp
  then have "700000 * m \<le> py_int (round_double (M * v))
      \<and> py_int (round_double (M * v)) \<le> 1500000 * m"
    by (rule py_int_bounds [OF lo hi])
  then show "700000 * spec_max_multiplier title \<le> fst (estimate_contract_value title ct g)
      \<and> fst (estimate_contract_value title ct g) \<le> 1500000 * spec_max_multiplier title"
    by (simp only: estimate_contract_value_eq fst_conv m_def v_def M_def)
qed

theorem estimate_contract_value_formula_witness:
  "spec_max_multiplier ''Satellite fuel depot'' = 50
   \<and> fst (np_random_uniform (round_double 0.7) (round_double 1.5) (constant_rng (1/4) 0))
       = 2026619832316723 / 2251799813685248
   \<and> fst (estimate_contract_value ''Satellite fuel depot'' ''Communications'' (constant_rng (1/4) 0))
       = 44999999
   \<and> 700000 * spec_max_multiplier ''Satellite fuel depot''
        \<le> fst (estimate_contract_value ''Satellite fuel depot'' ''Communications'' (constant_rng (1/4) 0))
   \<and> fst (estimate_contract_value ''Satellite fuel depot'' ''Communications'' (constant_rng (1/4) 0))
        \<le> 1500000 * spec_max_multiplier ''Satellite fuel depot''"
proof -
  have m: "spec_max_multiplier ''Satellite fuel depot'' = 50"
    by code_simp
  have v: "fst (np_random_uniform (round_double 0.7) (round_double 1.5) (constant_rng (1/4) 0))
      = 2026619832316723 / 2251799813685248"
    by code_simp
  have h: "round_double 0.7
        \<le> fst (np_random_uniform (round_double 0.7) (round_double 1.5) (constant_rng (1/4) 0))
      \<and> fst (np_random_uniform (round_double 0.7) (round_double 1.5) (constant_rng (1/4) 0)) \<le> 1.5"
    by code_simp
  have e: "fst (estimate_contract_value ''Satellite fuel depot'' ''Communications'' (constant_rng (1/4) 0))
      = 44999999"
    by code_simp
  note b = estimate_contract_value_formula
    [of "''Satellite fuel depot''" "''Communications''" "constant_rng (1/4) 0",
      THEN conjunct2, THEN conjunct1, rule_format, OF h]
  show ?thesis
    by (intro conjI) (rule m v e b [THEN conjunct1] b [THEN conjunct2])+
qed

text \<open>
  C7. For one and the same random factor between the double \<open>0.7\<close> and \<open>1.5\<close>, a title
  whose multiplier is at least that of another title gets an estimate at least as large.
\<close>

theorem estimate_contract_value_monotone:
  assumes "round_double 0.7 \<le> fst (np_random_uniform (round_double 0.7) (round_double 1.5) g)"
    and "fst (np_random_uniform (round_double 0.7) (round_double 1.5) g) \<le> 1.5"
    and "spec_max_multiplier title_b \<le> spec_max_multiplier title_a"
  shows "fst (estimate_contract_value title_b ct_b g) \<le> fst (estimate_contract_value title_a ct_a g)"
proof -
  define v where "v = fst (np_random_uniform (round_double 0.7) (round_double 1.5) g)"
  have "0 \<le> round_double 0.7"
    by (rule round_double_nonneg) simp
  with assms(1) have v: "0 \<le> v"
    by (simp add: v_def)
  have b: "0 \<le> real_of_int (1000000 * spec_max_multiplier title_b)"
    using spec_max_multiplier_ge_1 [of title_b] by simp
  from assms(3) have "real_of_int (1000000 * spec_max_multiplier title_b)
      \<le> real_of_int (1000000 * spec_max_multiplier title_a)"
    by simp
  then have "real_of_int (1000000 * spec_max_multiplier title_b) * v
      \<le> real_of_int (1000000 * spec_max_multiplier title_a) * v"
    using v by (rule mult_right_mono)
  moreover have "0 \<le> real_of_int (1000000 * spec_max_multiplier title_b) * v"
    using b v by (rule mult_nonneg_nonneg)
  ultimately have "round_double (real_of_int (1000000 * spec_max_multiplier title_b) * v)
      \<le> round_double (real_of_int (1000000 * spec_max_multiplier title_a) * v)"
    by (intro round_double_mono)
  then have "py_int (round_double (real_of_int (1000000 * spec_max_multiplier title_b) * v))
      \<le> py_int (round_double (real_of_int (1000000 * spec_max_multiplier title_a) * v))"
    by (rule py_int_mono)
  then show ?thesis
    by (simp only: estimate_contract_value_eq fst_conv v_def)
qed

theorem estimate_contract_value_monotone_witness:
  "fst (estimate_contract_value ''Fuel supply'' ''Logistics_Support'' (constant_rng (1/4) 0))
     \<le> fst (estimate_contract_value ''Aircraft spare parts'' ''Other'' (constant_rng (1/4) 0))"
proof -
  have a: "round_double 0.7
      \<le> fst (np_random_uniform (round_double 0.7) (round_double 1.5) (constant_rng (1/4) 0))"
    by code_simp
  have b: "fst (np_random_uniform (round_double 0.7) (round_double 1.5) (constant_rng (1/4) 0)) \<le> 1.5"
    by code_simp
  have c: "spec_max_multiplier ''Fuel supply'' \<le> spec_max_multiplier ''Aircraft spare parts''"
    by code_simp
  show ?thesis
    by (rule estimate_contract_value_monotone [OF a b c])
qed

subsection \<open>The complexity tier\<close>

lemma complexity_factor_gt:
  "complexity_factor title > 1.2 \<longleftrightarrow> any_in complexity_keywords (upper title)"
  by (simp add: complexity_factor_def)

text \<open>
  C6. The complexity tier is High if the complexity factor exceeds 1.2, otherwise Medium
  if the category-risk factor exceeds 1.2, otherwise Low; and the complexity factor
  exceeds 1.2 exactly when one of SATELLITE, SIMULATOR, CYBER, AI, ADVANCED occurs in the
  uppercased title.
\<close>

theorem assess_contract_risk_complexity:
  "\<exists>ra.
     fst (assess_contract_risk title ct v bc g) = Inr ra
     \<and> complexity ra = (if complexity_factor title > 1.2 then ''High''
                        else if type_risk ct > 1.2 then ''Medium'' else ''Low'')
     \<and> (complexity_factor title > 1.2 \<longleftrightarrow>
          any_in [''SATELLITE'', ''SIMULATOR'', ''CYBER'', ''AI'', ''ADVANCED''] (upper title))"
proof -
  from assess_contract_risk_fields [of title ct v bc g]
  obtain ra where ra: "fst (assess_contract_risk title ct v bc g) = Inr ra"
    and c: "complexity ra = (if complexity_factor title > 1.2 then ''High''
                        else if type_risk ct > 1.2 then ''Medium'' else ''Low'')"
    by (elim exE conjE)
  have k: "complexity_factor title > 1.2 \<longleftrightarrow>
          any_in [''SATELLITE'', ''SIMULATOR'', ''CYBER'', ''AI'', ''ADVANCED''] (upper title)"
    by (simp only: complexity_factor_gt complexity_keywords_def)
  show ?thesis
    by (rule exI [of _ ra]) (intro conjI ra c k)
qed

theorem assess_contract_risk_complexity_witness:
  "fst (assess_contract_risk ''Cyber range'' ''Training'' 1000000 2 (constant_rng (1/2) 0))
     = Inr \<lparr>likelihood = ''Medium'', impact = ''Medium'', score = 4, complexity = ''High''\<rparr>
   \<and> (\<exists>ra.
     fst (assess_contract_risk ''Cyber range'' ''Training'' 1000000 2 (constant_rng (1/2) 0)) = Inr ra
     \<and> complexity ra = (if complexity_factor ''Cyber range'' > 1.2 then ''High''
                        else if type_risk ''Training'' > 1.2 then ''Medium'' else ''Low'')
     \<and> (complexity_factor ''Cyber range'' > 1.2 \<longleftrightarrow>
          any_in [''SATELLITE'', ''SIMULATOR'', ''CYBER'', ''AI'', ''ADVANCED''] (upper ''Cyber range'')))"
proof (rule conjI)
  show "fst (assess_contract_risk ''Cyber range'' ''Training'' 1000000 2 (constant_rng (1/2) 0))
     = Inr \<lparr>likelihood = ''Medium'', impact = ''Medium'', score = 4, complexity = ''High''\<rparr>"
    by code_simp
next
  show "\<exists>ra.
     fst (assess_contract_risk ''Cyber range'' ''Training'' 1000000 2 (constant_rng (1/2) 0)) = Inr ra
     \<and> complexity ra = (if complexity_factor ''Cyber range'' > 1.2 then ''High''
                        else if type_risk ''Training'' > 1.2 then ''Medium'' else ''Low'')
     \<and> (complexity_factor ''Cyber range'' > 1.2 \<longleftrightarrow>
          any_in [''SATELLITE'', ''SIMULATOR'', ''CYBER'', ''AI'', ''ADVANCED''] (upper ''Cyber range''))"
    by (rule assess_contract_risk_complexity)
qed

text \<open>
  C8, as stated, fails. The title MORTAR BOMBS holds none of the complexity keywords, so
  its complexity factor is 1.0, and the category Ammunition has the category-risk factor
  1.1, strictly between 1.0 and 1.2; yet the complexity tier returned is Low, not Medium.
\<close>

theorem complexity_medium_counterexample:
  "\<not> any_in complexity_keywords (upper ''MORTAR BOMBS'')
   \<and> complexity_factor ''MORTAR BOMBS'' = 1.0
   \<and> 1.0 < type_risk ''Ammunition'' \<and> type_risk ''Ammunition'' < 1.2
   \<and> fst (assess_contract_risk ''MORTAR BOMBS'' ''Ammunition'' 5000000 3 (constant_rng (1/2) 0))
       = Inr \<lparr>likelihood = ''Low'', impact = ''Low'', score = 1, complexity = ''Low''\<rparr>"
  by code_simp

text \<open>
  C8, amended. For every contract whose title contains none of the high-complexity
  keywords and whose category-risk factor lies strictly between 1.0 and 1.2, the
  complexity tier returned by \<open>assess_contract_risk\<close> is Low: Medium needs a
  category-risk factor above 1.2.
\<close>

theorem assess_contract_risk_complexity_low:
  assumes "\<not> any_in complexity_keywords (upper title)"
    and "1.0 < type_risk ct" and "type_risk ct < 1.2"
  shows "\<exists>ra. fst (assess_contract_risk title ct v bc g) = Inr ra \<and> complexity ra = ''Low''"
proof -
  from assess_contract_risk_fields [of title ct v bc g]
  obtain ra where ra: "fst (assess_contract_risk title ct v bc g) = Inr ra"
    and c: "complexity ra = (if complexity_factor title > 1.2 then ''High''
                        else if type_risk ct > 1.2 then ''Medium'' else ''Low'')"
    by (elim exE conjE)
  from assms(1) have "\<not> complexity_factor title > 1.2"
    by (simp only: complexity_factor_gt not_False_eq_True)
  with assms(3) c have "complexity ra = ''Low''"
    by simp
  with ra show ?thesis
    by (intro exI conjI)
qed

theorem assess_contract_risk_complexity_low_witness:
  "\<exists>ra. fst (assess_contract_risk ''MORTAR BOMBS'' ''Ammunition'' 5000000 3 (constant_rng (1/2) 0)) = Inr ra
      \<and> complexity ra = ''Low''"
proof -
  have a: "\<not> any_in complexity_keywords (upper ''MORTAR BOMBS'')"
    by code_simp
  have b: "1.0 < type_risk ''Ammunition''"
    by code_simp
  have c: "type_risk ''Ammunition'' < 1.2"
    by code_simp
  show ?thesis
    by (rule assess_contract_risk_complexity_low [OF a b c])
qed

subsection \<open>The row parser and the row loop\<close>

lemma py_index_cells:
  assumes "\<not> length row < 4"
  shows "py_index (map clean_cell row) 0 = Inr (clean_cell (row ! 0))"
    and "py_index (map clean_cell row) 1 = Inr (clean_cell (row ! 1))"
    and "py_index (map clean_cell row) 2 = Inr (clean_cell (row ! 2))"
    and "py_index (map clean_cell row) 3 = Inr (clean_cell (row ! 3))"
    and "(if 4 < length row then py_index (map clean_cell row) 4 else Inr [])
           = Inr (if length row > 4 then clean_cell (row ! 4) else [])"
  using assms by (auto simp: py_index_def)

lemma assess_contract_risk_returns:
  "\<exists>ra g'. assess_contract_risk title ct v bc g = (Inr ra, g')"
  using assess_contract_risk_cases [of title ct v bc g]
  by (elim exE conjE) (intro exI, assumption)

lemma extract_try_short:
  "length row < 4 \<Longrightarrow> extract_contract_details_try row yr g = (Inr None, g)"
  by (simp add: extract_contract_details_try_def)

lemma extract_try_skip:
  assumes "\<not> length row < 4" and "skip_title (clean_cell (row ! 1))"
  shows "extract_contract_details_try row yr g = (Inr None, g)"
  unfolding extract_contract_details_try_def Let_def length_map
  by (simp only: py_index_cells [OF assms(1)] length_map assms if_False if_True sum.case)

lemma extract_try_contract:
  assumes "\<not> length row < 4" and "\<not> skip_title (clean_cell (row ! 1))"
    and "estimate_contract_value (clean_cell (row ! 1))
           (categorize_contract_type (clean_cell (row ! 1))) g = (ev, g1)"
    and "assess_contract_risk (clean_cell (row ! 1))
           (categorize_contract_type (clean_cell (row ! 1))) (real_of_int ev)
           (count_bidders (clean_cell (row ! 3))) g1 = (Inr risk, g2)"
  shows "extract_contract_details_try row yr g =
     (Inr (Some \<lparr>contract_id = clean_cell (row ! 0), rfp_title = clean_cell (row ! 1),
                 contract_type = categorize_contract_type (clean_cell (row ! 1)),
                 closing_date = clean_cell (row ! 2),
                 companies = clean_cell (row ! 3),
                 country = (if length row > 4 then clean_cell (row ! 4) else []),
                 bidder_count = count_bidders (clean_cell (row ! 3)),
                 estimated_value_eur = ev, year = yr,
                 risk_likelihood = likelihood risk, risk_impact = impact risk,
                 risk_score = score risk, complexity_category = complexity risk,
                 is_multi_national = is_multinational_contract (clean_cell (row ! 3)),
                 technology_level = assess_technology_level (clean_cell (row ! 1))\<rparr>), g2)"
  unfolding extract_contract_details_try_def Let_def length_map
  by (simp only: py_index_cells [OF assms(1)] length_map assms if_False if_True sum.case prod.case)

lemma extract_rejected:
  assumes "length row < 4 \<or> skip_title (clean_cell (row ! 1))"
  shows "extract_contract_details row yr g = (None, g)"
proof (cases "length row < 4")
  case True
  then show ?thesis
    by (simp add: extract_contract_details_def except_exception_def extract_try_short)
next
  case False
  with assms have "skip_title (clean_cell (row ! 1))"
    by simp
  with False show ?thesis
    by (simp add: extract_contract_details_def except_exception_def extract_try_skip)
qed

lemma extract_accepted:
  assumes "\<not> (length row < 4 \<or> skip_title (clean_cell (row ! 1)))"
  shows "\<exists>ra ev g1 g2.
     estimate_contract_value (clean_cell (row ! 1))
        (categorize_contract_type (clean_cell (row ! 1))) g = (ev, g1)
     \<and> assess_contract_risk (clean_cell (row ! 1))
           (categorize_contract_type (clean_cell (row ! 1))) (real_of_int ev)
           (count_bidders (clean_cell (row ! 3))) g1 = (Inr ra, g2)
     \<and> extract_contract_details row yr g =
      (Some \<lparr>contract_id = clean_cell (row ! 0), rfp_title = clean_cell (row ! 1),
                 contract_type = categorize_contract_type (clean_cell (row ! 1)),
                 closing_date = clean_cell (row ! 2),
                 companies = clean_cell (row ! 3),
                 country = (if length row > 4 then clean_cell (row ! 4) else []),
                 bidder_count = count_bidders (clean_cell (row ! 3)),
                 estimated_value_eur = ev, year = yr,
                 risk_likelihood = likelihood ra, risk_impact = impact ra,
                 risk_score = score ra, complexity_category = complexity ra,
                 is_multi_national = is_multinational_contract (clean_cell (row ! 3)),
                 technology_level = assess_technology_level (clean_cell (row ! 1))\<rparr>, g2)"
proof -
  from assms have a: "\<not> length row < 4" and b: "\<not> skip_title (clean_cell (row ! 1))"
    by simp_all
  obtain ev g1 where e: "estimate_contract_value (clean_cell (row ! 1))
        (categorize_contract_type (clean_cell (row ! 1))) g = (ev, g1)"
    by (cases "estimate_contract_value (clean_cell (row ! 1))
        (categorize_contract_type (clean_cell (row ! 1))) g")
  from assess_contract_risk_returns [of "clean_cell (row ! 1)"
      "categorize_contract_type (clean_cell (row ! 1))" "real_of_int ev"
      "count_bidders (clean_cell (row ! 3))" g1]
  obtain ra g2 where r: "assess_contract_risk (clean_cell (row ! 1))
           (categorize_contract_type (clean_cell (row ! 1))) (real_of_int ev)
           (count_bidders (clean_cell (row ! 3))) g1 = (Inr ra, g2)"
    by (elim exE)
  show ?thesis
    apply (rule exI [of _ ra], rule exI [of _ ev], rule exI [of _ g1], rule exI [of _ g2])
    apply (intro conjI e r)
    apply (simp only: extract_contract_details_def except_exception_def
        extract_try_contract [OF a b e r] prod.case sum.case)
    done
qed

lemma extract_None_iff:
  "fst (extract_contract_details row yr g) = None
     \<longleftrightarrow> length row < 4 \<or> skip_title (clean_cell (row ! 1))"
proof
  assume n: "fst (extract_contract_details row yr g) = None"
  show "length row < 4 \<or> skip_title (clean_cell (row ! 1))"
  proof (rule ccontr)
    assume "\<not> (length row < 4 \<or> skip_title (clean_cell (row ! 1)))"
    from extract_accepted [OF this, where yr = yr and g = g] n show False
      by (elim exE conjE) simp
  qed
next
  assume "length row < 4 \<or> skip_title (clean_cell (row ! 1))"
  then show "fst (extract_contract_details row yr g) = None"
    by (simp add: extract_rejected)
qed

lemma extract_None_state:
  "fst (extract_contract_details row yr g) = None \<Longrightarrow> extract_contract_details row yr g = (None, g)"
  by (simp only: extract_None_iff extract_rejected)

lemma process_data_rows_skip:
  assumes "fst (extract_contract_details row yr g) = None"
  shows "process_data_rows (row # rest) yr g acc = process_data_rows rest yr g acc"
  by (simp add: extract_None_state [OF assms])

lemma process_data_rows_keep:
  assumes "fst (extract_contract_details row yr g) = Some c"
  shows "process_data_rows (row # rest) yr g acc =
     process_data_rows rest yr (snd (extract_contract_details row yr g)) (acc @ [c])"
proof -
  from assms have "\<not> (length row < 4 \<or> skip_title (clean_cell (row ! 1)))"
    using extract_None_iff [of row yr g] by simp
  then have n: "\<not> (row = [] \<or> length row < 4)"
    by auto
  obtain g' where e: "extract_contract_details row yr g = (Some c, g')"
    using assms by (cases "extract_contract_details row yr g") simp
  show ?thesis
    by (simp only: process_data_rows.simps n e if_False prod.case option.case snd_conv)
qed

lemma process_data_rows_skip_anywhere:
  assumes "fst (extract_contract_details row yr g) = None"
  shows "process_data_rows (before @ row # rest) yr g0 acc =
     process_data_rows (before @ rest) yr g0 acc"
proof (induction before arbitrary: g0 acc)
  case Nil
  from assms have "fst (extract_contract_details row yr g0) = None"
    by (simp only: extract_None_iff)
  then show ?case
    by (simp only: append_Nil process_data_rows_skip)
next
  case (Cons r before)
  show ?case
    by (simp add: Cons.IH split: prod.splits option.splits)
qed

text \<open>
  C3, as stated, fails: the parser counts the cells of the row, not the non-empty ones.
  The row below has four cells of which two are non-empty after cleaning, and a contract
  comes back.
\<close>

theorem extract_contract_details_nonempty_counterexample:
  "length [Some ''NSPA-1'', Some '' Radar upgrade '', None, Some []] = 4
   \<and> count_list (map clean_cell [Some ''NSPA-1'', Some '' Radar upgrade '', None, Some []]) [] = 2
   \<and> fst (extract_contract_details [Some ''NSPA-1'', Some '' Radar upgrade '', None, Some []] 2024
          (constant_rng (1/2) 1))
      = Some \<lparr>contract_id = ''NSPA-1'', rfp_title = ''Radar upgrade'',
               contract_type = ''Defense_Systems'', closing_date = [], companies = [],
               country = [], bidder_count = 0, estimated_value_eur = 1100000, year = 2024,
               risk_likelihood = ''High'', risk_impact = ''Very High'', risk_score = 12,
               complexity_category = ''Medium'', is_multi_national = False,
               technology_level = ''High''\<rparr>"
  by code_simp

text \<open>
  C3, amended. For every input row with fewer than 4 cells, \<open>extract_contract_details\<close>
  returns \<open>None\<close>, and draws no random number. (A row of 4 or more cells is rejected
  only for its title.)
\<close>

theorem extract_contract_details_short_row:
  assumes "length row < 4"
  shows "extract_contract_details row yr g = (None, g)"
  using assms by (simp add: extract_rejected)

theorem extract_contract_details_short_row_witness:
  "extract_contract_details [Some ''NSPA-1'', Some ''Radar upgrade'', Some ''12/03/2024''] 2024
     (constant_rng (1/2) 1) = (None, constant_rng (1/2) 1)"
proof -
  have "length [Some ''NSPA-1'', Some ''Radar upgrade'', Some ''12/03/2024''] < 4"
    by simp
  then show ?thesis
    by (rule extract_contract_details_short_row)
qed

lemma extract_try_returns:
  "\<exists>r. fst (extract_contract_details_try row yr g) = Inr r
     \<and> fst (extract_contract_details row yr g) = r"
proof (cases "length row < 4 \<or> skip_title (clean_cell (row ! 1))")
  case True
  then have "extract_contract_details_try row yr g = (Inr None, g)"
    using extract_try_short [of row yr g] extract_try_skip [of row yr g] by auto
  then show ?thesis
    by (simp add: extract_contract_details_def except_exception_def)
next
  case False
  then have a: "\<not> length row < 4" and b: "\<not> skip_title (clean_cell (row ! 1))"
    by simp_all
  obtain ev g1 where e: "estimate_contract_value (clean_cell (row ! 1))
        (categorize_contract_type (clean_cell (row ! 1))) g = (ev, g1)"
    by (cases "estimate_contract_value (clean_cell (row ! 1))
        (categorize_contract_type (clean_cell (row ! 1))) g")
  from assess_contract_risk_returns [of "clean_cell (row ! 1)"
      "categorize_contract_type (clean_cell (row ! 1))" "real_of_int ev"
      "count_bidders (clean_cell (row ! 3))" g1]
  obtain ra g2 where r: "assess_contract_risk (clean_cell (row ! 1))
           (categorize_contract_type (clean_cell (row ! 1))) (real_of_int ev)
           (count_bidders (clean_cell (row ! 3))) g1 = (Inr ra, g2)"
    by (elim exE)
  show ?thesis
    by (simp only: extract_contract_details_def except_exception_def
        extract_try_contract [OF a b e r] prod.case sum.case fst_conv) simp
qed

lemma find_header_row_bounds:
  "find_header_row f table i = Some h \<Longrightarrow> i \<le> h \<and> h < i + length table"
proof (induction table arbitrary: i)
  case Nil
  then show ?case by simp
next
  case (Cons r table)
  then show ?case
    by (fastforce split: if_splits)
qed

lemma find_header_row_append:
  "find_header_row f pre i = Some h \<Longrightarrow> find_header_row f (pre @ suffix_rows) i = Some h"
  by (induction pre arbitrary: i) (auto split: if_splits)

lemma process_tables_skip_row:
  assumes hdr: "find_header_row f pre 0 = Some h"
    and none: "fst (extract_contract_details row yr g) = None"
  shows "process_tables f ((pre @ row # rest) # tables) yr g0 acc
     = process_tables f ((pre @ rest) # tables) yr g0 acc"
proof -
  from find_header_row_bounds [OF hdr] have h: "h < length pre"
    by simp
  then have d1: "drop (h + 1) (pre @ row # rest) = drop (h + 1) pre @ row # rest"
    and d2: "drop (h + 1) (pre @ rest) = drop (h + 1) pre @ rest"
    by simp_all
  have p: "process_data_rows (drop (h + 1) pre @ row # rest) yr g0 acc
      = process_data_rows (drop (h + 1) pre @ rest) yr g0 acc"
    using none by (rule process_data_rows_skip_anywhere)
  have l: "process_tables f ((pre @ row # rest) # tables) yr g0 acc
      = (case process_data_rows (drop (h + 1) pre @ rest) yr g0 acc of
           (contracts', g') \<Rightarrow> process_tables f tables yr g' contracts')"
    using h by (simp add: find_header_row_append [OF hdr] d1 p del: One_nat_def)
  show ?thesis
  proof (cases "length (pre @ rest) < 2")
    case True
    then have "length pre + length rest < 2"
      by simp
    with h have "length rest < 1" and "length pre = 1" and "h = 0"
      by linarith+
    then have rest: "rest = []" and "drop (h + 1) pre = []"
      by simp_all
    with l True show ?thesis
      by simp
  next
    case False
    then have "process_tables f ((pre @ rest) # tables) yr g0 acc
      = (case process_data_rows (drop (h + 1) pre @ rest) yr g0 acc of
           (contracts', g') \<Rightarrow> process_tables f tables yr g' contracts')"
      using h by (simp add: find_header_row_append [OF hdr] d2 del: One_nat_def)
    with l show ?thesis
      by simp
  qed
qed

lemma process_tables_skip_row_anywhere:
  assumes "find_header_row f pre 0 = Some h"
    and "fst (extract_contract_details row yr g) = None"
  shows "process_tables f (before @ (pre @ row # rest) # tables) yr g0 acc
     = process_tables f (before @ (pre @ rest) # tables) yr g0 acc"
proof (induction before arbitrary: g0 acc)
  case Nil
  show ?case
    by (simp only: append_Nil process_tables_skip_row [OF assms])
next
  case (Cons t before)
  show ?case
    by (simp add: Cons.IH split: option.splits prod.splits)
qed

text \<open>The row loop and the table loop are the specification's batch: one step for each
  data row, in order, from the contracts and the generator state that the rows before it
  have left.\<close>

lemma process_data_rows_foldl:
  "process_data_rows rows yr g acc = foldl (spec_row_step yr) (acc, g) rows"
proof (induction rows arbitrary: g acc)
  case Nil
  show ?case by simp
next
  case (Cons row rows)
  show ?case
  proof (cases "row = [] \<or> length row < 4")
    case True
    then have "length row < 4"
      by auto
    then have "extract_contract_details row yr g = (None, g)"
      by (simp add: extract_rejected)
    then have "spec_row_step yr (acc, g) row = (acc, g)"
      by (simp add: spec_row_step_def)
    with True Cons.IH show ?thesis
      by simp
  next
    case False
    then show ?thesis
      by (simp add: Cons.IH spec_row_step_def split: prod.splits option.splits)
  qed
qed

lemma process_tables_foldl:
  "process_tables f tables yr g acc
     = foldl (spec_row_step yr) (acc, g) (concat (map (spec_data_rows f) tables))"
proof (induction tables arbitrary: g acc)
  case Nil
  show ?case by simp
next
  case (Cons table tables)
  show ?case
  proof (cases "table = [] \<or> length table < 2")
    case True
    then have "spec_data_rows f table = []"
      by (auto simp: spec_data_rows_def)
    with True Cons.IH show ?thesis
      by simp
  next
    case False
    show ?thesis
    proof (cases "find_header_row f table 0")
      case None
      with False have "spec_data_rows f table = []"
        by (simp add: spec_data_rows_def)
      with False None Cons.IH show ?thesis
        by simp
    next
      case (Some h)
      with False have d: "spec_data_rows f table = drop (h + 1) table"
        by (simp add: spec_data_rows_def)
      obtain cs g' where p: "process_data_rows (drop (h + 1) table) yr g acc = (cs, g')"
        by (cases "process_data_rows (drop (h + 1) table) yr g acc")
      then have q: "foldl (spec_row_step yr) (acc, g) (drop (h + 1) table) = (cs, g')"
        by (simp only: process_data_rows_foldl)
      have "process_tables f (table # tables) yr g acc = process_tables f tables yr g' cs"
        using False Some p by (simp del: One_nat_def)
      also have "\<dots> = foldl (spec_row_step yr) (cs, g') (concat (map (spec_data_rows f) tables))"
        by (rule Cons.IH)
      also have "\<dots> = foldl (spec_row_step yr) (acc, g)
          (concat (map (spec_data_rows f) (table # tables)))"
        by (simp only: list.map concat.simps foldl_append d q)
      finally show ?thesis .
    qed
  qed
qed

text \<open>
  C9. \<open>extract_contract_details\<close> propagates no exception: it is the handler applied to
  the outcome of its \<open>try\<close> block, the handler turns every exception into \<open>None\<close>, and on
  a row of cells the block raises none. The function returns \<open>None\<close> exactly for the rows
  of fewer than 4 cells and the rows whose title is empty, a header or a BID OPENING line;
  for every other row it returns a contract with all fifteen fields set. A row that yields
  \<open>None\<close> is skipped: wherever it stands among the data rows, the row loop, and with it
  \<open>parse_nspa_contract_data\<close> on any batch of tables, returns the contracts and the
  generator state of the batch without that row. A row that yields a contract appends it
  and the loop goes on with the rows that remain. And \<open>parse_nspa_contract_data\<close> is the
  batch of the specification: it takes the data rows of all the tables one after the other,
  each row in the state that the rows before it have left, adds the contract of a row that
  yields one, adds nothing for a row that yields \<open>None\<close>, and goes on to the last row.
\<close>

theorem extract_contract_details_no_exception:
  "extract_contract_details row yr g = except_exception (extract_contract_details_try row yr g)
   \<and> except_exception (Inl e, g') = (None, g')
   \<and> (\<exists>r. fst (extract_contract_details_try row yr g) = Inr r
          \<and> fst (extract_contract_details row yr g) = r)
   \<and> (fst (extract_contract_details row yr g) = None
        \<longleftrightarrow> length row < 4 \<or> skip_title (clean_cell (row ! 1)))
   \<and> (fst (extract_contract_details row yr g) \<noteq> None \<longrightarrow>
        (\<exists>c ra. fst (extract_contract_details row yr g) = Some c
           \<and> contract_id c = clean_cell (row ! 0)
           \<and> rfp_title c = clean_cell (row ! 1)
           \<and> closing_date c = clean_cell (row ! 2)
           \<and> companies c = clean_cell (row ! 3)
           \<and> country c = (if 4 < length row then clean_cell (row ! 4) else [])
           \<and> year c = yr
           \<and> contract_type c = categorize_contract_type (rfp_title c)
           \<and> bidder_count c = count_bidders (companies c)
           \<and> estimated_value_eur c
                = fst (estimate_contract_value (rfp_title c) (contract_type c) g)
           \<and> fst (assess_contract_risk (rfp_title c) (contract_type c)
                  (real_of_int (estimated_value_eur c)) (bidder_count c)
                  (snd (estimate_contract_value (rfp_title c) (contract_type c) g))) = Inr ra
           \<and> risk_likelihood c = likelihood ra
           \<and> risk_impact c = impact ra
           \<and> risk_score c = score ra
           \<and> complexity_category c = complexity ra
           \<and> is_multi_national c = is_multinational_contract (companies c)
           \<and> technology_level c = assess_technology_level (rfp_title c)))
   \<and> (fst (extract_contract_details row yr g) = None \<longrightarrow>
          process_data_rows (before @ row # rest) yr g0 acc
            = process_data_rows (before @ rest) yr g0 acc
        \<and> (find_header_row str_of pre 0 \<noteq> None \<longrightarrow>
              parse_nspa_contract_data str_of txt
                  (tables_before @ (pre @ row # rest) # tables_after) yr g0
                = parse_nspa_contract_data str_of txt
                  (tables_before @ (pre @ rest) # tables_after) yr g0))
   \<and> (\<forall>c. fst (extract_contract_details row yr g) = Some c \<longrightarrow>
          process_data_rows (row # rest) yr g acc
            = process_data_rows rest yr (snd (extract_contract_details row yr g)) (acc @ [c]))
   \<and> parse_nspa_contract_data str_of txt tables yr g0
        = foldl (spec_row_step yr) ([], g0) (concat (map (spec_data_rows str_of) tables))"
proof (intro conjI allI impI)
  show "extract_contract_details row yr g
      = except_exception (extract_contract_details_try row yr g)"
    by (simp only: extract_contract_details_def)
next
  show "except_exception (Inl e, g') = (None, g')"
    by (simp add: except_exception_def)
next
  show "\<exists>r. fst (extract_contract_details_try row yr g) = Inr r
          \<and> fst (extract_contract_details row yr g) = r"
    by (rule extract_try_returns)
next
  show "fst (extract_contract_details row yr g) = None
        \<longleftrightarrow> length row < 4 \<or> skip_title (clean_cell (row ! 1))"
    by (rule extract_None_iff)
next
  assume "fst (extract_contract_details row yr g) \<noteq> None"
  then have "\<not> (length row < 4 \<or> skip_title (clean_cell (row ! 1)))"
    by (simp only: extract_None_iff not_False_eq_True)
  from extract_accepted [OF this, where yr = yr and g = g]
  obtain ra ev g1 g2 where
    e: "estimate_contract_value (clean_cell (row ! 1))
        (categorize_contract_type (clean_cell (row ! 1))) g = (ev, g1)"
    and r: "assess_contract_risk (clean_cell (row ! 1))
           (categorize_contract_type (clean_cell (row ! 1))) (real_of_int ev)
           (count_bidders (clean_cell (row ! 3))) g1 = (Inr ra, g2)"
    and x: "extract_contract_details row yr g =
      (Some \<lparr>contract_id = clean_cell (row ! 0), rfp_title = clean_cell (row ! 1),
                 contract_type = categorize_contract_type (clean_cell (row ! 1)),
                 closing_date = clean_cell (row ! 2),
                 companies = clean_cell (row ! 3),
                 country = (if length row > 4 then clean_cell (row ! 4) else []),
                 bidder_count = count_bidders (clean_cell (row ! 3)),
                 estimated_value_eur = ev, year = yr,
                 risk_likelihood = likelihood ra, risk_impact = impact ra,
                 risk_score = score ra, complexity_category = complexity ra,
                 is_multi_national = is_multinational_contract (clean_cell (row ! 3)),
                 technology_level = assess_technology_level (clean_cell (row ! 1))\<rparr>, g2)"
    by (elim exE conjE)
  show "\<exists>c ra. fst (extract_contract_details row yr g) = Some c
           \<and> contract_id c = clean_cell (row ! 0)
           \<and> rfp_title c = clean_cell (row ! 1)
           \<and> closing_date c = clean_cell (row ! 2)
           \<and> companies c = clean_cell (row ! 3)
           \<and> country c = (if 4 < length row then clean_cell (row ! 4) else [])
           \<and> year c = yr
           \<and> contract_type c = categorize_contract_type (rfp_title c)
           \<and> bidder_count c = count_bidders (companies c)
           \<and> estimated_value_eur c
                = fst (estimate_contract_value (rfp_title c) (contract_type c) g)
           \<and> fst (assess_contract_risk (rfp_title c) (contract_type c)
                  (real_of_int (estimated_value_eur c)) (bidder_count c)
                  (snd (estimate_contract_value (rfp_title c) (contract_type c) g))) = Inr ra
           \<and> risk_likelihood c = likelihood ra
           \<and> risk_impact c = impact ra
           \<and> risk_score c = score ra
           \<and> complexity_category c = complexity ra
           \<and> is_multi_national c = is_multinational_contract (companies c)
           \<and> technology_level c = assess_technology_level (rfp_title c)"
    apply (rule exI [of _ "the (fst (extract_contract_details row yr g))"])
    apply (rule exI [of _ ra])
    apply (insert e r x)
    apply simp
    done
next
  assume "fst (extract_contract_details row yr g) = None"
  then show "process_data_rows (before @ row # rest) yr g0 acc
      = process_data_rows (before @ rest) yr g0 acc"
    by (rule process_data_rows_skip_anywhere)
next
  assume n: "fst (extract_contract_details row yr g) = None"
    and "find_header_row str_of pre 0 \<noteq> None"
  then obtain h where "find_header_row str_of pre 0 = Some h"
    by (cases "find_header_row str_of pre 0") simp_all
  then show "parse_nspa_contract_data str_of txt
        (tables_before @ (pre @ row # rest) # tables_after) yr g0
      = parse_nspa_contract_data str_of txt
        (tables_before @ (pre @ rest) # tables_after) yr g0"
    unfolding parse_nspa_contract_data_def using n
    by (rule process_tables_skip_row_anywhere)
next
  fix c
  assume "fst (extract_contract_details row yr g) = Some c"
  then show "process_data_rows (row # rest) yr g acc
      = process_data_rows rest yr (snd (extract_contract_details row yr g)) (acc @ [c])"
    by (rule process_data_rows_keep)
next
  show "parse_nspa_contract_data str_of txt tables yr g0
      = foldl (spec_row_step yr) ([], g0) (concat (map (spec_data_rows str_of) tables))"
    unfolding parse_nspa_contract_data_def by (rule process_tables_foldl)
qed

theorem extract_contract_details_no_exception_witness:
  "fst (extract_contract_details [Some ''NSPA-10'', Some [CHR 0xA0], Some ''x'', Some ''y''] 2024
          (constant_rng (1/2) 1)) = None
   \<and> fst (parse_nspa_contract_data str_row []
        [[[Some ''Collective No'', Some ''RFP Title'', Some ''Closing Date'', Some ''Companies''],
          [Some ''NSPA-10'', Some [CHR 0xA0], Some ''x'', Some ''y''],
          [Some ''NSPA-2'', Some ''Fuel supply'', None, None]]] 2024 (constant_rng (1/2) 1))
   = [\<lparr>contract_id = ''NSPA-2'', rfp_title = ''Fuel supply'',
        contract_type = ''Logistics_Support'', closing_date = [], companies = [],
        country = [], bidder_count = 0, estimated_value_eur = 11000000, year = 2024,
        risk_likelihood = ''Medium'', risk_impact = ''High'', risk_score = 6,
        complexity_category = ''Low'', is_multi_national = False,
        technology_level = ''Low''\<rparr>]"
proof -
  have h: "fst (extract_contract_details [Some ''NSPA-10'', Some [CHR 0xA0], Some ''x'', Some ''y''] 2024
      (constant_rng (1/2) 1)) = None"
    by code_simp
  have f: "find_header_row str_row
      [[Some ''Collective No'', Some ''RFP Title'', Some ''Closing Date'', Some ''Companies'']] 0 \<noteq> None"
    by code_simp
  have s1: "parse_nspa_contract_data str_row []
      ([] @ ([[Some ''Collective No'', Some ''RFP Title'', Some ''Closing Date'', Some ''Companies'']]
             @ [Some ''NSPA-10'', Some [CHR 0xA0], Some ''x'', Some ''y'']
             # [[Some ''NSPA-2'', Some ''Fuel supply'', None, None]]) # []) 2024 (constant_rng (1/2) 1)
    = parse_nspa_contract_data str_row []
      ([] @ ([[Some ''Collective No'', Some ''RFP Title'', Some ''Closing Date'', Some ''Companies'']]
             @ [[Some ''NSPA-2'', Some ''Fuel supply'', None, None]]) # []) 2024 (constant_rng (1/2) 1)"
    by (rule extract_contract_details_no_exception
        [THEN conjunct2, THEN conjunct2, THEN conjunct2, THEN conjunct2, THEN conjunct2,
          THEN conjunct1, rule_format, OF h, THEN conjunct2, rule_format, OF f])
  have s2: "fst (parse_nspa_contract_data str_row []
      [[[Some ''Collective No'', Some ''RFP Title'', Some ''Closing Date'', Some ''Companies''],
        [Some ''NSPA-2'', Some ''Fuel supply'', None, None]]] 2024 (constant_rng (1/2) 1))
    = [\<lparr>contract_id = ''NSPA-2'', rfp_title = ''Fuel supply'',
        contract_type = ''Logistics_Support'', closing_date = [], companies = [],
        country = [], bidder_count = 0, estimated_value_eur = 11000000, year = 2024,
        risk_likelihood = ''Medium'', risk_impact = ''High'', risk_score = 6,
        complexity_category = ''Low'', is_multi_national = False,
        technology_level = ''Low''\<rparr>]"
    by code_simp
  have s3: "fst (parse_nspa_contract_data str_row []
        [[[Some ''Collective No'', Some ''RFP Title'', Some ''Closing Date'', Some ''Companies''],
          [Some ''NSPA-10'', Some [CHR 0xA0], Some ''x'', Some ''y''],
          [Some ''NSPA-2'', Some ''Fuel supply'', None, None]]] 2024 (constant_rng (1/2) 1))
   = [\<lparr>contract_id = ''NSPA-2'', rfp_title = ''Fuel supply'',
        contract_type = ''Logistics_Support'', closing_date = [], companies = [],
        country = [], bidder_count = 0, estimated_value_eur = 11000000, year = 2024,
        risk_likelihood = ''Medium'', risk_impact = ''High'', risk_score = 6,
        complexity_category = ''Low'', is_multi_national = False,
        technology_level = ''Low''\<rparr>]"
    using s1 s2 by (simp only: append_Nil append_Cons)
  show ?thesis
    by (intro conjI) (rule h s3)+
qed

end
